theory Spec2Isabelle
  imports Complex_Main "HOL-Library.Word" "HOL-Library.AList"
begin

unbundle bit_operations_syntax

chapter \<open>The program\<close>

section \<open>JavaScript values used by the sources\<close>

text \<open>
  A JavaScript string is a sequence of UTF-16 code units; \<open>length\<close>, \<open>slice\<close>,
  \<open>charCodeAt\<close> and a regular expression without the \<open>u\<close> flag all work on code units.
  Strings whose content the code inspects (the raw markdown, a chunk text, a URL) are lists
  of code units, written as natural numbers. Strings the code only passes on or compares
  (identifiers, titles, model names) are HOL strings.

  Numbers are treated in the next subsection.
\<close>

type_synonym code_unit = nat

type_synonym js_string = "code_unit list"

definition cu :: "char \<Rightarrow> code_unit" where
  "cu c = of_char c"

definition js :: "string \<Rightarrow> js_string" where
  "js s = map cu s"

subsection \<open>Numbers\<close>

text \<open>
  JavaScript numbers are IEEE 754 doubles. Every finite double is a rational number, and
  the model holds a number as that rational. NaN and the infinities are outside the
  model.

  Lengths, indices and byte counts are natural numbers. A double holds every natural
  number up to \<open>2^53\<close> exactly, and adds two of them exactly while the sum stays in that
  range; the model takes these counts as natural numbers and describes the code for
  counts and sums of counts below \<open>2^53\<close>. Numbers the code only passes on or compares
  (the components of a vector, the similarity the database computes) are rationals.

  Where the code divides or multiplies, the result is the double nearest to the exact
  result, a tie going to the double with the even significand. A double other than zero
  is \<open>m * 2^e\<close> with an integer \<open>m\<close> of at most 53 binary digits and \<open>e\<close> from -1074 on; for
  an exact result \<open>x\<close> with \<open>2^k \<le> |x| < 2^(k+1)\<close> the candidates are the multiples of
  \<open>2^(k-52)\<close>, or of \<open>2^(-1074)\<close> for the subnormal numbers.
\<close>

text \<open>The number of binary digits of a positive integer.\<close>

function bits :: "int \<Rightarrow> int" where
  "bits n = (if n \<le> 0 then 0 else 1 + bits (n div 2))"
  by pat_completeness auto

termination
  by (relation "measure nat") auto

declare bits.simps [simp del]

text \<open>For \<open>x > 0\<close>, the integer \<open>k\<close> with \<open>2^k \<le> x < 2^(k+1)\<close>.\<close>

definition ilog2 :: "rat \<Rightarrow> int" where
  "ilog2 x =
     (if 1 \<le> x then bits \<lfloor>x\<rfloor> - 1
      else - bits (\<lceil>1 / x\<rceil> - 1))"

definition pow2 :: "int \<Rightarrow> rat" where
  "pow2 e = (if 0 \<le> e then 2 ^ nat e else 1 / 2 ^ nat (- e))"

text \<open>The nearest integer, a tie going to the even one.\<close>

definition round_half_even :: "rat \<Rightarrow> int" where
  "round_half_even x =
     (let n = \<lfloor>x\<rfloor>; r = x - of_int n
      in if r < 1 / 2 then n
         else if 1 / 2 < r then n + 1
         else if even n then n else n + 1)"

text \<open>The double nearest to a rational number (of a magnitude below \<open>2^1024\<close>).\<close>

definition to_double :: "rat \<Rightarrow> rat" where
  "to_double x =
     (if x = 0 then 0
      else
        (let e = max (ilog2 \<bar>x\<bar> - 52) (- 1074)
         in of_int (round_half_even (x / pow2 e)) * pow2 e))"

text \<open>\<open>x / y\<close> for \<open>y\<close> other than zero, and \<open>x * y\<close>.\<close>

definition js_div :: "rat \<Rightarrow> rat \<Rightarrow> rat" where
  "js_div x y = to_double (x / y)"

definition js_mul :: "rat \<Rightarrow> rat \<Rightarrow> rat" where
  "js_mul x y = to_double (x * y)"

text \<open>\<open>Math.round(x)\<close> is the integer nearest to \<open>x\<close>, a tie going up: \<open>\<lfloor>x + 1/2\<rfloor>\<close>, which
  is \<open>round x\<close>.\<close>

section \<open>src/db/utils: fnv1a32\<close>

text \<open>
  \<^verbatim>\<open>let hash = 0x811c9dc5;
  for (i ...) { hash ^= str.charCodeAt(i); hash = Math.imul(hash, 0x01000193); }
  return (hash >>> 0).toString(16).padStart(8, '0');\<close>
  The bitwise operators and \<open>Math.imul\<close> work on 32-bit integers, so the hash is a
  32-bit word: \<open>XOR\<close> with the code unit, multiplication modulo \<open>2 ^ 32\<close>.
\<close>

fun fnv1a32_loop :: "32 word \<Rightarrow> js_string \<Rightarrow> 32 word" where
  "fnv1a32_loop hash [] = hash"
| "fnv1a32_loop hash (c # cs) = fnv1a32_loop ((hash XOR word_of_nat c) * 0x01000193) cs"

definition hex_digit :: "nat \<Rightarrow> char" where
  "hex_digit d = ''0123456789abcdef'' ! (d mod 16)"

text \<open>\<open>toString(16)\<close> of a number below \<open>2 ^ 32\<close> has at most eight digits, the most
  significant first; \<open>padStart(8, '0')\<close> fills it to eight.\<close>

fun toString16 :: "nat \<Rightarrow> string" where
  "toString16 n = (if n < 16 then [hex_digit n] else toString16 (n div 16) @ [hex_digit n])"

declare toString16.simps [simp del]

definition padStart :: "nat \<Rightarrow> char \<Rightarrow> string \<Rightarrow> string" where
  "padStart w c s = replicate (w - length s) c @ s"

definition fnv1a32 :: "js_string \<Rightarrow> string" where
  "fnv1a32 str = padStart 8 CHR ''0'' (toString16 (unat (fnv1a32_loop 0x811c9dc5 str)))"

section \<open>src/db/embeddings: upsertEmbeddings\<close>

record EmbeddingItem =
  chunkIndex :: int
  chunkText :: js_string
  embedding :: "rat list"
  modelId :: string
  device :: string
  pooling :: "string option"
  normalize :: "bool option"

record UpsertEmbeddingsInput =
  documentId :: string
  items :: "EmbeddingItem list"

text \<open>A row of the \<open>documentEmbeddings\<close> table, with the columns the statement writes.\<close>

record embedding_row =
  row_documentId :: string
  row_chunkIndex :: int
  row_chunkText :: js_string
  row_modelId :: string
  row_device :: string
  row_pooling :: string
  row_normalize :: int
  row_contentHash :: string
  row_embedding :: "rat list"

datatype store_error =
    EmptyValues
  | CardinalityViolation
  | ConstraintViolation
  | QueryFailure

text \<open>The conflict target: \<open>(documentId, chunkIndex, modelId, device)\<close>.\<close>

definition conflict_key :: "embedding_row \<Rightarrow> string \<times> int \<times> string \<times> string" where
  "conflict_key r = (row_documentId r, row_chunkIndex r, row_modelId r, row_device r)"

text \<open>
  \<^verbatim>\<open>items.map((it) => ({ documentId, chunkIndex: it.chunkIndex, chunkText: it.chunkText,
     modelId: it.modelId, device: it.device, pooling: it.pooling ?? 'mean',
     normalize: it.normalize ?? true ? 1 : 0, contentHash: fnv1a32(it.chunkText),
     embedding: it.embedding }))\<close>
  The conditional operator binds weaker than \<open>??\<close>: the flag is
  \<open>(it.normalize ?? true) ? 1 : 0\<close>.
\<close>

definition to_value :: "string \<Rightarrow> EmbeddingItem \<Rightarrow> embedding_row" where
  "to_value doc it =
     \<lparr> row_documentId = doc,
       row_chunkIndex = chunkIndex it,
       row_chunkText = chunkText it,
       row_modelId = modelId it,
       row_device = device it,
       row_pooling = (case pooling it of None \<Rightarrow> ''mean'' | Some p \<Rightarrow> p),
       row_normalize = (if (case normalize it of None \<Rightarrow> True | Some b \<Rightarrow> b) then 1 else 0),
       row_contentHash = fnv1a32 (chunkText it),
       row_embedding = embedding it \<rparr>"

text \<open>
  The statement the code builds:
  \<^verbatim>\<open>INSERT INTO document_embeddings ... VALUES v1, ..., vn
  ON CONFLICT (document_id, chunk_index, model_id, device) DO UPDATE SET
    chunk_text = excluded.chunk_text, pooling = excluded.pooling,
    normalize = excluded.normalize, content_hash = excluded.content_hash,
    embedding = excluded.embedding\<close>
  A proposed row whose key is in the table overwrites the five columns of that row; any
  other proposed row is appended.
\<close>

definition on_conflict_set :: "embedding_row \<Rightarrow> embedding_row \<Rightarrow> embedding_row" where
  "on_conflict_set excluded r =
     r\<lparr> row_chunkText := row_chunkText excluded,
        row_pooling := row_pooling excluded,
        row_normalize := row_normalize excluded,
        row_contentHash := row_contentHash excluded,
        row_embedding := row_embedding excluded \<rparr>"

definition upsert_row :: "embedding_row list \<Rightarrow> embedding_row \<Rightarrow> embedding_row list" where
  "upsert_row tbl v =
     (if conflict_key v \<in> set (map conflict_key tbl)
      then map (\<lambda>r. if conflict_key r = conflict_key v then on_conflict_set v r else r) tbl
      else tbl @ [v])"

text \<open>
  The store executes the statement as a whole or not at all. The query builder refuses an
  empty \<open>values\<close> list; the store refuses a statement that proposes two rows with one key
  (an \<open>ON CONFLICT DO UPDATE\<close> command cannot affect a row a second time) and a row that
  violates a constraint of the schema. The schema is not part of the sources: \<open>accepts\<close>
  stands for its row constraints.
\<close>

definition insert_on_conflict ::
  "(embedding_row \<Rightarrow> bool) \<Rightarrow> embedding_row list \<Rightarrow> embedding_row list
     \<Rightarrow> store_error + embedding_row list" where
  "insert_on_conflict accepts tbl vs =
     (if vs = [] then Inl EmptyValues
      else if \<not> distinct (map conflict_key vs) then Inl CardinalityViolation
      else if \<not> list_all accepts vs then Inl ConstraintViolation
      else Inr (foldl upsert_row tbl vs))"

text \<open>\<open>upsertEmbeddings\<close> returns \<open>values.length\<close> once the statement has run; an error of
  the store is thrown on, and the table is unchanged.\<close>

definition upsertEmbeddings ::
  "(embedding_row \<Rightarrow> bool) \<Rightarrow> embedding_row list \<Rightarrow> UpsertEmbeddingsInput
     \<Rightarrow> (store_error + nat) \<times> embedding_row list" where
  "upsertEmbeddings accepts tbl input =
     (let vs = map (to_value (documentId input)) (items input)
      in case insert_on_conflict accepts tbl vs of
           Inl e \<Rightarrow> (Inl e, tbl)
         | Inr tbl' \<Rightarrow> (Inr (length vs), tbl'))"

subsection \<open>Predicates and example data\<close>

text \<open>The rows of a table that carry a given key.\<close>

definition rows_with :: "string \<times> int \<times> string \<times> string \<Rightarrow> embedding_row list \<Rightarrow> embedding_row list" where
  "rows_with k tbl = filter (\<lambda>r. conflict_key r = k) tbl"

text \<open>Example data: a table that already holds the key with other values, and two items
  for that key, the first with defaults omitted, the second with a new vector.\<close>

definition ex_table :: "embedding_row list" where
  "ex_table =
     [\<lparr> row_documentId = ''d1'', row_chunkIndex = 0, row_chunkText = js ''old'',
        row_modelId = ''m'', row_device = ''wasm'', row_pooling = ''cls'', row_normalize = 0,
        row_contentHash = ''00000000'', row_embedding = [0, 0] \<rparr>]"

definition ex_item1 :: EmbeddingItem where
  "ex_item1 =
     \<lparr> chunkIndex = 0, chunkText = js ''a'', embedding = [1, 0], modelId = ''m'',
       device = ''wasm'', pooling = None, normalize = None \<rparr>"

definition ex_item2 :: EmbeddingItem where
  "ex_item2 =
     \<lparr> chunkIndex = 0, chunkText = js ''a'', embedding = [0, 1], modelId = ''m'',
       device = ''wasm'', pooling = None, normalize = Some False \<rparr>"

definition ex_input1 :: UpsertEmbeddingsInput where
  "ex_input1 = \<lparr> documentId = ''d1'', items = [ex_item1] \<rparr>"

definition ex_input2 :: UpsertEmbeddingsInput where
  "ex_input2 = \<lparr> documentId = ''d1'', items = [ex_item2] \<rparr>"

section \<open>src/db/semantic-search: the excerpt\<close>

subsection \<open>Character classes of the regular expressions\<close>

text \<open>
  The line terminators are LF, CR, U+2028 and U+2029: \<open>.\<close> matches every code unit but
  these, and with the \<open>m\<close> flag \<open>^\<close> holds after one and \<open>$\<close> before one. \<open>\s\<close> (and
  \<open>trim\<close>) take the white space TAB, VT, FF, SP, NBSP, U+1680, U+2000 to U+200A, U+202F,
  U+205F, U+3000, U+FEFF and the line terminators. \<open>\d\<close> is \<open>0\<close> to \<open>9\<close>.
\<close>

definition is_line_terminator :: "code_unit \<Rightarrow> bool" where
  "is_line_terminator c = (c = 10 \<or> c = 13 \<or> c = 8232 \<or> c = 8233)"

definition is_space :: "code_unit \<Rightarrow> bool" where
  "is_space c =
     (c = 9 \<or> c = 10 \<or> c = 11 \<or> c = 12 \<or> c = 13 \<or> c = 32 \<or> c = 160 \<or> c = 5760
      \<or> (8192 \<le> c \<and> c \<le> 8202) \<or> c = 8232 \<or> c = 8233 \<or> c = 8239 \<or> c = 8287
      \<or> c = 12288 \<or> c = 65279)"

definition is_digit :: "code_unit \<Rightarrow> bool" where
  "is_digit c = (48 \<le> c \<and> c \<le> 57)"

subsection \<open>String.prototype.replace with a global regular expression\<close>

text \<open>
  A matcher stands for one regular expression and its replacement text. It is asked at one
  position of the subject: given the code unit before the position (none at the start of
  the subject) and the subject from the position on, it answers with the length of the
  match that starts there and the text that replaces it, or with no match.

  \<open>replace\<close> with the \<open>g\<close> flag scans the subject from the left. Where the expression
  matches, the replacement is written and the scan goes on behind the match; after an empty
  match it goes on one code unit further, and that code unit is copied. Where it does not
  match, the code unit is copied.
\<close>

type_synonym matcher = "code_unit option \<Rightarrow> js_string \<Rightarrow> (nat \<times> js_string) option"

fun replace_all :: "matcher \<Rightarrow> code_unit option \<Rightarrow> js_string \<Rightarrow> js_string" where
  "replace_all m prev [] = (case m prev [] of None \<Rightarrow> [] | Some (n, rep) \<Rightarrow> rep)"
| "replace_all m prev (c # cs) =
     (case m prev (c # cs) of
        None \<Rightarrow> c # replace_all m (Some c) cs
      | Some (0, rep) \<Rightarrow> rep @ c # replace_all m (Some c) cs
      | Some (Suc n, rep) \<Rightarrow>
          rep @ replace_all m (Some ((c # cs) ! min n (length cs))) (drop n cs))"

text \<open>\<open>^\<close> with the \<open>m\<close> flag: the start of the subject, or behind a line terminator.\<close>

definition at_line_start :: "code_unit option \<Rightarrow> bool" where
  "at_line_start prev = (case prev of None \<Rightarrow> True | Some p \<Rightarrow> is_line_terminator p)"

text \<open>\<open>$\<close> with the \<open>m\<close> flag: the end of the subject, or before a line terminator.\<close>

definition at_line_end :: "js_string \<Rightarrow> bool" where
  "at_line_end s = (case s of [] \<Rightarrow> True | c # cs \<Rightarrow> is_line_terminator c)"

text \<open>The lazy \<open>(.*?)\<close> before a delimiter \<open>d\<close>: the least number of code units, none of
  them a line terminator, after which \<open>d\<close> stands. With an empty exclusion set it is the
  lazy \<open>[\s\S]*?\<close>.\<close>

fun lazy_until :: "(code_unit \<Rightarrow> bool) \<Rightarrow> js_string \<Rightarrow> js_string \<Rightarrow> nat option" where
  "lazy_until excl d [] = (if d = [] then Some 0 else None)"
| "lazy_until excl d (c # cs) =
     (if take (length d) (c # cs) = d then Some 0
      else if excl c then None
      else map_option Suc (lazy_until excl d cs))"

subsection \<open>The thirteen replacements of the excerpt\<close>

text \<open>\<^verbatim>\<open>.replace(/<[^>]*>/g, ' ')\<close>: a greedy run of code units other than \<open>>\<close> ends
  before the first \<open>>\<close> or at the end of the subject; only the first gives a match.\<close>

definition m_tag :: matcher where
  "m_tag prev s =
     (case s of
        [] \<Rightarrow> None
      | c # cs \<Rightarrow>
          if c = cu CHR ''<'' then
            (let body = takeWhile (\<lambda>x. x \<noteq> cu CHR ''>'') cs
             in if length body < length cs then Some (length body + 2, js '' '') else None)
          else None)"

text \<open>The bracket and parenthesis part shared by images and links:
  \<^verbatim>\<open>\[([^\]]*)\]\([^)]*\)\<close>. The answer is the bracketed text and the length of the whole.\<close>

definition bracket_paren :: "js_string \<Rightarrow> (js_string \<times> nat) option" where
  "bracket_paren s =
     (case s of
        [] \<Rightarrow> None
      | c # cs \<Rightarrow>
          if c = cu CHR ''['' then
            (let label = takeWhile (\<lambda>x. x \<noteq> cu CHR '']'') cs;
                 r1 = drop (length label) cs
             in case r1 of
                  c1 # c2 # r2 \<Rightarrow>
                    if c2 = cu CHR ''('' then
                      (let target = takeWhile (\<lambda>x. x \<noteq> cu CHR '')'') r2
                       in if length target < length r2
                          then Some (label, length label + length target + 4)
                          else None)
                    else None
                | _ \<Rightarrow> None)
          else None)"

text \<open>\<^verbatim>\<open>.replace(/!\[[^\]]*\]\([^)]*\)/g, '')\<close>\<close>

definition m_image :: matcher where
  "m_image prev s =
     (case s of
        [] \<Rightarrow> None
      | c # cs \<Rightarrow>
          if c = cu CHR ''!'' then
            (case bracket_paren cs of None \<Rightarrow> None | Some (label, n) \<Rightarrow> Some (n + 1, []))
          else None)"

text \<open>\<^verbatim>\<open>.replace(/\[([^\]]*)\]\([^)]*\)/g, '$1')\<close>\<close>

definition m_link :: matcher where
  "m_link prev s = (case bracket_paren s of None \<Rightarrow> None | Some (label, n) \<Rightarrow> Some (n, label))"

text \<open>\<^verbatim>\<open>.replace(/```[\s\S]*?```/g, '')\<close>\<close>

definition m_fence :: matcher where
  "m_fence prev s =
     (if take 3 s = js [CHR 0x60, CHR 0x60, CHR 0x60] then
        (case lazy_until (\<lambda>c. False) (js [CHR 0x60, CHR 0x60, CHR 0x60]) (drop 3 s) of
           None \<Rightarrow> None
         | Some k \<Rightarrow> Some (k + 6, []))
      else None)"

text \<open>\<^verbatim>\<open>.replace(/`[^`]*`/g, '')\<close>\<close>

definition m_code :: matcher where
  "m_code prev s =
     (case s of
        [] \<Rightarrow> None
      | c # cs \<Rightarrow>
          if c = cu (CHR 0x60) then
            (let body = takeWhile (\<lambda>x. x \<noteq> cu (CHR 0x60)) cs
             in if length body < length cs then Some (length body + 2, []) else None)
          else None)"

text \<open>\<^verbatim>\<open>.replace(/^#{1,6}\s+/gm, '')\<close>: the greedy \<open>#{1,6}\<close> takes the run of \<open>#\<close> up to six;
  a longer run leaves a \<open>#\<close> where \<open>\s\<close> is needed, and no shorter choice helps.\<close>

definition m_heading :: matcher where
  "m_heading prev s =
     (let hashes = takeWhile (\<lambda>x. x = cu CHR ''#'') s;
          ws = takeWhile is_space (drop (length hashes) s)
      in if at_line_start prev \<and> 1 \<le> length hashes \<and> length hashes \<le> 6 \<and> 1 \<le> length ws
         then Some (length hashes + length ws, [])
         else None)"

text \<open>\<^verbatim>\<open>.replace(/(\*\*|__)(.*?)\1/g, '$2')\<close> and \<^verbatim>\<open>.replace(/(\*|_)(.*?)\1/g, '$2')\<close>:
  an opening delimiter, the shortest text without a line terminator, the same delimiter.\<close>

definition m_delimited :: "js_string list \<Rightarrow> matcher" where
  "m_delimited ds prev s =
     (case filter (\<lambda>d. take (length d) s = d) ds of
        [] \<Rightarrow> None
      | d # _ \<Rightarrow>
          (case lazy_until is_line_terminator d (drop (length d) s) of
             None \<Rightarrow> None
           | Some k \<Rightarrow> Some (2 * length d + k, take k (drop (length d) s))))"

definition m_strong :: matcher where
  "m_strong = m_delimited [js ''**'', js ''__'']"

definition m_em :: matcher where
  "m_em = m_delimited [js ''*'', js ''_'']"

text \<open>\<^verbatim>\<open>.replace(/^>\s*/gm, '')\<close>\<close>

definition m_quote :: matcher where
  "m_quote prev s =
     (case s of
        [] \<Rightarrow> None
      | c # cs \<Rightarrow>
          if at_line_start prev \<and> c = cu CHR ''>''
          then Some (1 + length (takeWhile is_space cs), [])
          else None)"

text \<open>\<^verbatim>\<open>.replace(/^-{3,}$/gm, '')\<close>\<close>

definition m_rule :: matcher where
  "m_rule prev s =
     (let dashes = takeWhile (\<lambda>x. x = cu CHR ''-'') s
      in if at_line_start prev \<and> 3 \<le> length dashes \<and> at_line_end (drop (length dashes) s)
         then Some (length dashes, [])
         else None)"

text \<open>\<^verbatim>\<open>.replace(/^[\s]*[-*+]\s+/gm, '')\<close>\<close>

definition m_bullet :: matcher where
  "m_bullet prev s =
     (let ws1 = takeWhile is_space s
      in case drop (length ws1) s of
           [] \<Rightarrow> None
         | b # r \<Rightarrow>
             (let ws2 = takeWhile is_space r
              in if at_line_start prev
                    \<and> (b = cu CHR ''-'' \<or> b = cu CHR ''*'' \<or> b = cu CHR ''+'')
                    \<and> 1 \<le> length ws2
                 then Some (length ws1 + 1 + length ws2, [])
                 else None))"

text \<open>\<^verbatim>\<open>.replace(/^[\s]*\d+\.\s+/gm, '')\<close>\<close>

definition m_ordered :: matcher where
  "m_ordered prev s =
     (let ws1 = takeWhile is_space s;
          digits = takeWhile is_digit (drop (length ws1) s)
      in case drop (length ws1 + length digits) s of
           [] \<Rightarrow> None
         | b # r \<Rightarrow>
             (let ws2 = takeWhile is_space r
              in if at_line_start prev \<and> 1 \<le> length digits \<and> b = cu CHR ''.''
                    \<and> 1 \<le> length ws2
                 then Some (length ws1 + length digits + 1 + length ws2, [])
                 else None))"

text \<open>\<^verbatim>\<open>.replace(/\s+/g, ' ')\<close>\<close>

definition m_spaces :: matcher where
  "m_spaces prev s =
     (let ws = takeWhile is_space s
      in if 1 \<le> length ws then Some (length ws, js '' '') else None)"

text \<open>\<open>trim\<close> removes white space and line terminators from both ends.\<close>

definition trim :: "js_string \<Rightarrow> js_string" where
  "trim s = rev (dropWhile is_space (rev (dropWhile is_space s)))"

definition normalizedText :: "js_string \<Rightarrow> js_string" where
  "normalizedText rawMarkdown =
     trim
       (replace_all m_spaces None
       (replace_all m_ordered None
       (replace_all m_bullet None
       (replace_all m_rule None
       (replace_all m_quote None
       (replace_all m_em None
       (replace_all m_strong None
       (replace_all m_heading None
       (replace_all m_code None
       (replace_all m_fence None
       (replace_all m_link None
       (replace_all m_image None
       (replace_all m_tag None rawMarkdown)))))))))))))"

text \<open>\<^verbatim>\<open>normalizedText.slice(0, 180) + (normalizedText.length > 180 ? '...' : '')\<close>\<close>

definition excerpt_of :: "js_string \<Rightarrow> js_string" where
  "excerpt_of rawMarkdown =
     (let t = normalizedText rawMarkdown
      in take 180 t @ (if length t > 180 then js ''...'' else []))"

subsection \<open>Predicates and example data\<close>

text \<open>White space collapsed: every white-space code unit is a single SP, and the next code
  unit, if there is one, is not white space.\<close>

fun single_spaced :: "js_string \<Rightarrow> bool" where
  "single_spaced [] = True"
| "single_spaced [c] = (if is_space c then c = 32 else True)"
| "single_spaced (c # d # cs) =
     ((if is_space c then c = 32 \<and> \<not> is_space d else True) \<and> single_spaced (d # cs))"

definition trimmed :: "js_string \<Rightarrow> bool" where
  "trimmed s = (if s = [] then True else \<not> is_space (hd s) \<and> \<not> is_space (last s))"

text \<open>Text without markup: no white space, no digit and none of the characters a
  replacement starts with.\<close>

definition plain :: "code_unit \<Rightarrow> bool" where
  "plain c = (\<not> is_space c \<and> \<not> is_digit c \<and> c \<notin> set (js ''<![#*_>-+'') \<and> c \<noteq> 96)"

section \<open>src/db/semantic-search: semanticSearch\<close>

text \<open>
  A row the store answers the query with: the columns of the owning document, joined to a
  chunk, and the value of \<^verbatim>\<open>embedding <=> query\<close> (the cosine distance) for that chunk.
  The declared type of \<open>rawMarkdown\<close> is a string; \<open>None\<close> stands for a null the store may
  hold where the schema (not part of the sources) allows it.
\<close>

record document_hit =
  hit_id :: string
  hit_title :: string
  hit_slug :: string
  hit_rawMarkdown :: "js_string option"
  hit_createdAt :: int
  hit_distance :: rat

text \<open>The column the query selects: \<^verbatim>\<open>similarity: 1 - (embedding <=> query)\<close>.\<close>

definition hit_similarity :: "document_hit \<Rightarrow> rat" where
  "hit_similarity h = 1 - hit_distance h"

record SemanticSearchResult =
  id' :: string
  title :: string
  slug :: string
  excerpt :: js_string
  similarity :: rat
  createdAt :: int

datatype search_error =
    DimensionMismatch nat nat
  | TypeError
  | StoreError store_error

text \<open>
  The store, as \<open>semanticSearch\<close> uses it: asked with the query vector and the limit, it
  answers with the rows of
  \<^verbatim>\<open>SELECT ... FROM document_embeddings INNER JOIN documents ON ...
  ORDER BY embedding <=> query ASC LIMIT limit\<close>
  or fails. Which rows it holds and how it breaks ties is the store's business: the
  theorems hold for every answer.
\<close>

type_synonym vector_store = "rat list \<Rightarrow> nat \<Rightarrow> store_error + document_hit list"

text \<open>The object stored for a row: \<^verbatim>\<open>{ id, title, slug, excerpt, similarity, createdAt }\<close>.\<close>

definition mk_result :: "document_hit \<Rightarrow> js_string \<Rightarrow> SemanticSearchResult" where
  "mk_result row md =
     \<lparr> id' = hit_id row, title = hit_title row, slug = hit_slug row,
       excerpt = excerpt_of md, similarity = hit_similarity row,
       createdAt = hit_createdAt row \<rparr>"

text \<open>
  \<^verbatim>\<open>for (const row of results) {
    const existing = docMap.get(row.id);
    if (!existing || row.similarity > existing.similarity) {
      const normalizedText = row.rawMarkdown.replace(...)...;
      docMap.set(row.id, {...});
    } }\<close>
  A \<open>Map\<close> keeps its keys in the order of their first insertion, and \<open>set\<close> on a key it
  holds replaces the value in place: the association list with \<open>AList.update\<close>. Calling
  \<open>replace\<close> on null throws a TypeError, which ends the call.
\<close>

fun group_rows ::
  "document_hit list \<Rightarrow> (string \<times> SemanticSearchResult) list
     \<Rightarrow> search_error + (string \<times> SemanticSearchResult) list" where
  "group_rows [] docMap = Inr docMap"
| "group_rows (row # rows) docMap =
     (if (case map_of docMap (hit_id row) of
            None \<Rightarrow> True
          | Some existing \<Rightarrow> hit_similarity row > similarity existing)
      then (case hit_rawMarkdown row of
              None \<Rightarrow> Inl TypeError
            | Some md \<Rightarrow> group_rows rows (AList.update (hit_id row) (mk_result row md) docMap))
      else group_rows rows docMap)"

text \<open>
  \<^verbatim>\<open>if (queryEmbedding.length !== EMBEDDING_DIMENSIONS) throw new Error(...);
  const db = getDb();
  const results = await db.select(...)...limit(limit);
  ...
  return Array.from(docMap.values()).sort((a, b) => b.similarity - a.similarity);\<close>
  \<open>EMBEDDING_DIMENSIONS\<close> comes from the schema and is the parameter \<open>D\<close>. \<open>calls\<close> counts
  the queries sent to the store. \<open>limit\<close> defaults to 10. \<open>Array.prototype.sort\<close> is
  stable, and so is \<open>sort_key\<close>; the comparator orders by falling similarity.
\<close>

definition semanticSearch ::
  "nat \<Rightarrow> vector_store \<Rightarrow> nat \<Rightarrow> rat list \<Rightarrow> nat option
     \<Rightarrow> (search_error + SemanticSearchResult list) \<times> nat" where
  "semanticSearch D store calls queryEmbedding limit =
     (if length queryEmbedding \<noteq> D
      then (Inl (DimensionMismatch D (length queryEmbedding)), calls)
      else
        (case store queryEmbedding (case limit of None \<Rightarrow> 10 | Some l \<Rightarrow> l) of
           Inl e \<Rightarrow> (Inl (StoreError e), Suc calls)
         | Inr results \<Rightarrow>
             (case group_rows results [] of
                Inl e \<Rightarrow> (Inl e, Suc calls)
              | Inr docMap \<Rightarrow>
                  (Inr (sort_key (\<lambda>r. - similarity r) (map snd docMap)), Suc calls))))"

subsection \<open>Predicates and example data\<close>

text \<open>An entry of the map built from \<open>rows\<close>: the object made from one of the rows,
  under that row's identifier.\<close>

definition entry_ok :: "document_hit list \<Rightarrow> string \<times> SemanticSearchResult \<Rightarrow> bool" where
  "entry_ok rows p =
     (\<exists>h md. h \<in> set rows \<and> hit_rawMarkdown h = Some md \<and> fst p = hit_id h \<and> snd p = mk_result h md)"

text \<open>Example data: a store that holds three chunks of two documents.\<close>

definition ex_hits :: "document_hit list" where
  "ex_hits =
     [\<lparr> hit_id = ''a'', hit_title = ''A'', hit_slug = ''a-1'',
        hit_rawMarkdown = Some (js ''# A **bold**''), hit_createdAt = 1, hit_distance = 1/2 \<rparr>,
      \<lparr> hit_id = ''b'', hit_title = ''B'', hit_slug = ''b-1'',
        hit_rawMarkdown = Some [], hit_createdAt = 2, hit_distance = 1/10 \<rparr>,
      \<lparr> hit_id = ''a'', hit_title = ''A'', hit_slug = ''a-1'',
        hit_rawMarkdown = Some (js ''# A **bold**''), hit_createdAt = 1, hit_distance = 1/4 \<rparr>]"

definition ex_store :: vector_store where
  "ex_store q l = Inr (take l ex_hits)"

text \<open>A store whose answer holds a row without raw content.\<close>

definition ex_store_null :: vector_store where
  "ex_store_null q l =
     Inr [\<lparr> hit_id = ''c'', hit_title = ''C'', hit_slug = ''c-1'', hit_rawMarkdown = None,
            hit_createdAt = 3, hit_distance = 1/5 \<rparr>]"

section \<open>The embeddings worker\<close>

text \<open>
  The sources hold the worker twice: \<open>public/embeddings-worker.js\<close>, built on
  Transformers.js 3 (here \<open>V3\<close>), and a second file built on version 2 (here \<open>V2\<close>). The
  message handler is the same in both but for the default model, the first progress message
  of \<open>init\<close> and the tracker that \<open>clearCache\<close> empties; \<open>ensurePipeline\<close> differs.
\<close>

datatype version = V2 | V3

subsection \<open>Messages and effects\<close>

text \<open>The payload of a request: \<open>modelId\<close> and \<open>device\<close> (absent, or a string) and \<open>texts\<close>
  (any value).\<close>

datatype js_value =
    JUndefined
  | JNull
  | JBool bool
  | JNumber rat
  | JText js_string
  | JArray "js_value list"

record payload =
  p_modelId :: "string option"
  p_device :: "string option"
  p_texts :: js_value

record request =
  req_type :: string
  req_id :: string
  req_payload :: payload

text \<open>\<open>a || b\<close> on strings: the empty string is falsy, as undefined is.\<close>

definition or_else :: "string option \<Rightarrow> string \<Rightarrow> string" where
  "or_else a b = (case a of None \<Rightarrow> b | Some x \<Rightarrow> if x = [] then b else x)"

text \<open>The labels of the loading phase: \<open>'Iniciando descarga'\<close>, \<open>'Descargando modelo'\<close>,
  \<open>'Descargando ' + file\<close>, \<open>'Modelo listo'\<close>, \<open>'Modelo descargado'\<close> and
  \<open>'Iniciando carga del modelo'\<close>.\<close>

datatype progress_label =
    IniciandoDescarga
  | DescargandoModelo
  | Descargando string
  | ModeloListo
  | ModeloDescargado
  | IniciandoCarga

text \<open>A progress payload: \<^verbatim>\<open>{ phase: 'loading', message }\<close>,
  \<^verbatim>\<open>{ phase: 'loading', label, percent }\<close> (the percentage may be null) or
  \<^verbatim>\<open>{ phase: 'running', index, total, percent }\<close>.\<close>

datatype progress_payload =
    LoadingMessage
  | Loading progress_label "int option"
  | Running nat nat int

text \<open>What \<open>toPlainArray\<close> is given and gives: null, an array, a typed array, or another
  value.\<close>

datatype vector_like = VNull | VArray "rat list" | VTyped "rat list" | VOther

text \<open>What the pipeline returns for a text: an array, or an object with a \<open>data\<close> field.\<close>

datatype pipe_output = OutArray "rat list" | OutTensor vector_like

datatype js_error = Error string

text \<open>The error of a failed response: the message of the input check (the
  specification's \<open>InvalidInput\<close>), of an unknown type, or of a caught exception.\<close>

datatype worker_error =
    InvalidInput
  | UnknownMessageType string
  | Thrown js_error

datatype worker_result =
    StatusResult bool "string option \<times> string option"
  | Cleared
  | Ready "string option \<times> string option"
  | Embeddings "string option" "string option" "vector_like list"

datatype message =
    Progress string progress_payload
  | ResponseOk string worker_result
  | ResponseError string worker_error

text \<open>What the worker does that can be seen from outside, in order: a message posted, a
  call of the library's \<open>pipeline\<close> (a model load), a call of the loaded pipeline on a text.\<close>

datatype effect =
    Posted message
  | PipelineCall string string
  | PipeCall js_value

subsection \<open>The library\<close>

text \<open>
  The model loader is the library's. While \<open>pipeline(...)\<close> runs, the library fetches
  files and calls the progress callback; then it resolves with a pipeline or rejects. A
  load is described by these events in their order and by the outcome.

  A fetch is answered with a response that has or lacks a body and a parsed
  \<open>content-length\<close> header (\<open>None\<close> when absent). The bodies are read in chunks; a chunk
  and the end of a body name the fetch they belong to by its number among the fetches of
  the load. A native progress event carries \<open>status\<close>, \<open>progress\<close> (when it is a number)
  and \<open>file\<close> (when it is a non-empty string).
\<close>

datatype load_event =
    Fetch js_string "nat option" bool
  | Chunk nat nat
  | Done nat
  | Cancel nat
  | NativeProgress string "rat option" "string option"

type_synonym pipe = "js_value \<Rightarrow> js_error + pipe_output"

record load_script =
  events :: "load_event list"
  outcome :: "js_error + pipe"

type_synonym library = "string \<Rightarrow> string \<Rightarrow> load_script"

subsection \<open>The state of a worker\<close>

text \<open>\<open>globalThis.fetch\<close> and \<open>env.fetch\<close> hold the native fetch or a wrapper that closes
  over the \<open>report\<close> function of its load (the request it reports to, if any) and the
  fetch it calls.\<close>

datatype fetch_impl = NativeFetch | Interceptor "string option" fetch_impl

text \<open>An entry of \<open>downloadTracker\<close>: \<^verbatim>\<open>{ loaded, total }\<close>.\<close>

record download_info =
  loaded :: nat
  total :: nat

record worker =
  featureExtractionPipeline :: "pipe option"
  currentConfig :: "string option \<times> string option"
  downloadTracker :: "(js_string \<times> download_info) list"
  globalFetch :: fetch_impl
  envFetch :: "fetch_impl option"
  trace :: "effect list"

definition postProgress :: "string \<Rightarrow> progress_payload \<Rightarrow> worker \<Rightarrow> worker" where
  "postProgress requestId p w = w\<lparr>trace := trace w @ [Posted (Progress requestId p)]\<rparr>"

definition postResponse :: "string \<Rightarrow> worker_error + worker_result \<Rightarrow> worker \<Rightarrow> worker" where
  "postResponse requestId r w =
     w\<lparr>trace := trace w @ [Posted (case r of Inl e \<Rightarrow> ResponseError requestId e
                                        | Inr x \<Rightarrow> ResponseOk requestId x)]\<rparr>"

text \<open>\<open>report\<close> is \<open>reportProgress\<close> when that is a function, else null; the handlers pass
  \<^verbatim>\<open>(p) => postProgress(requestId, p)\<close>.\<close>

definition report :: "string option \<Rightarrow> progress_payload \<Rightarrow> worker \<Rightarrow> worker" where
  "report rep p w = (case rep of None \<Rightarrow> w | Some requestId \<Rightarrow> postProgress requestId p w)"

subsection \<open>Which fetches are tracked\<close>

text \<open>
  Both wrappers test the URL with a case-insensitive regular expression. A pattern is a
  list of tests, one per code unit; with the \<open>i\<close> flag a letter of the pattern matches
  both of its cases.
\<close>

definition lower :: "code_unit \<Rightarrow> code_unit" where
  "lower c = (if 65 \<le> c \<and> c \<le> 90 then c + 32 else c)"

fun matches_at :: "(code_unit \<Rightarrow> bool) list \<Rightarrow> js_string \<Rightarrow> bool" where
  "matches_at [] s = True"
| "matches_at (p # ps) [] = False"
| "matches_at (p # ps) (c # cs) = (p c \<and> matches_at ps cs)"

fun regex_search :: "(code_unit \<Rightarrow> bool) list \<Rightarrow> js_string \<Rightarrow> bool" where
  "regex_search ps [] = matches_at ps []"
| "regex_search ps (c # cs) = (matches_at ps (c # cs) \<or> regex_search ps cs)"

definition ci :: "string \<Rightarrow> (code_unit \<Rightarrow> bool) list" where
  "ci s = map (\<lambda>p x. lower x = cu p) s"

text \<open>A pattern that must end at the end of the subject (\<open>$\<close> without the \<open>m\<close> flag).\<close>

definition regex_search_end :: "(code_unit \<Rightarrow> bool) list \<Rightarrow> js_string \<Rightarrow> bool" where
  "regex_search_end ps s =
     (length ps \<le> length s \<and> matches_at ps (drop (length s - length ps) s))"

text \<open>
  Version 3: \<^verbatim>\<open>/huggingface|hf\.co|jsdelivr|onnxruntime|\.wasm(\?|$)|\.onnx(\?|$)/i\<close>.

  Version 2: \<^verbatim>\<open>/huggingface|hf\.co|jsdelivr|onnxruntime|\\.wasm($|\\?)|\\.onnx($|\\?)|\\.bin($|\\?)|\\.json($|\\?)/i\<close>.
  In this literal \<^verbatim>\<open>\\\<close> is a backslash and the \<open>.\<close> behind it any code unit but a line
  terminator; \<^verbatim>\<open>($|\\?)\<close> is the end of the subject or an optional backslash, which
  always matches. So the last four alternatives ask for a backslash, one more code unit
  and the extension.
\<close>

definition any_char :: "code_unit \<Rightarrow> bool" where
  "any_char c = (\<not> is_line_terminator c)"

definition isModelAsset :: "version \<Rightarrow> js_string \<Rightarrow> bool" where
  "isModelAsset v url =
     (regex_search (ci ''huggingface'') url \<or> regex_search (ci ''hf.co'') url
      \<or> regex_search (ci ''jsdelivr'') url \<or> regex_search (ci ''onnxruntime'') url
      \<or> (case v of
            V3 \<Rightarrow>
              regex_search (ci ''.wasm?'') url \<or> regex_search_end (ci ''.wasm'') url
              \<or> regex_search (ci ''.onnx?'') url \<or> regex_search_end (ci ''.onnx'') url
          | V2 \<Rightarrow>
              regex_search ((\<lambda>x. x = 92) # any_char # ci ''wasm'') url
              \<or> regex_search ((\<lambda>x. x = 92) # any_char # ci ''onnx'') url
              \<or> regex_search ((\<lambda>x. x = 92) # any_char # ci ''bin'') url
              \<or> regex_search ((\<lambda>x. x = 92) # any_char # ci ''json'') url))"

text \<open>\<^verbatim>\<open>const fileKey = url.split('/').pop() || url;\<close>\<close>

definition fileKey_of :: "js_string \<Rightarrow> js_string" where
  "fileKey_of url =
     (let seg = rev (takeWhile (\<lambda>c. c \<noteq> cu CHR ''/'') (rev url))
      in if seg = [] then url else seg)"

subsection \<open>calculateTotalProgress\<close>

text \<open>
  \<^verbatim>\<open>if (downloadTracker.size === 0) return null;
  for (const [, info] of downloadTracker) { totalBytes += info.total; loadedBytes += info.loaded; }
  if (totalBytes === 0) return null;
  return Math.min(99, Math.round((loadedBytes / totalBytes) * 100));\<close>
\<close>

definition calculateTotalProgress :: "(js_string \<times> download_info) list \<Rightarrow> int option" where
  "calculateTotalProgress tracker =
     (if tracker = [] then None
      else
        (let totalBytes = sum_list (map (total \<circ> snd) tracker);
             loadedBytes = sum_list (map (loaded \<circ> snd) tracker)
         in if totalBytes = 0 then None
            else Some (min 99 (round (js_mul (js_div (of_nat loadedBytes) (of_nat totalBytes)) 100)))))"

subsection \<open>The fetch wrappers at work\<close>

text \<open>
  The wrappers in \<open>fetch\<close>, innermost first, with the request each reports to. A call of
  the outermost wrapper first awaits the fetch it wraps, so the inner wrappers act first.
\<close>

fun reports_of :: "fetch_impl \<Rightarrow> string option list" where
  "reports_of NativeFetch = []"
| "reports_of (Interceptor rep base) = reports_of base @ [rep]"

text \<open>One wrapper's stream over a response body: the request it reports to, the key of
  its file in the tracker (version 2), and its own counters (version 3).\<close>

record layer =
  l_report :: string
  l_key :: js_string
  l_total :: nat
  l_loaded :: nat

text \<open>
  A fetch through one wrapper. Version 2:
  \<^verbatim>\<open>if (!isModelAsset || !report) return originalFetch(input, init);
  const response = await originalFetch(input, init);
  const total = contentLength ? parseInt(contentLength, 10) : 0;
  if (!response.body || total === 0) { report({..., percent: null }); return response; }
  downloadTracker.set(fileKey, { loaded: 0, total });  ... new ReadableStream(...)\<close>
  Version 3:
  \<^verbatim>\<open>const res = await baseFetch(...args);
  if (!report || !res?.body) return res;
  if (!isModelAsset) return res;
  const total = Number(res.headers?.get('content-length')) || 0;
  if (!total || !Number.isFinite(total)) { report({..., percent: null }); return res; }
  let loaded = 0; ... new ReadableStream(...)\<close>
  The answer is the state and the stream the wrapper puts over the body, if it does.
\<close>

definition fetch_layer ::
  "version \<Rightarrow> js_string \<Rightarrow> nat option \<Rightarrow> bool \<Rightarrow> string option \<Rightarrow> worker
     \<Rightarrow> worker \<times> layer list" where
  "fetch_layer v url content_length has_body rep w =
     (let tot = (case content_length of None \<Rightarrow> 0 | Some n \<Rightarrow> n)
      in case rep of
           None \<Rightarrow> (w, [])
         | Some requestId \<Rightarrow>
             (case v of
                V2 \<Rightarrow>
                  if \<not> isModelAsset V2 url then (w, [])
                  else if \<not> has_body \<or> tot = 0
                  then (postProgress requestId (Loading DescargandoModelo None) w, [])
                  else
                    (w\<lparr>downloadTracker :=
                         AList.update (fileKey_of url) \<lparr>loaded = 0, total = tot\<rparr>
                           (downloadTracker w)\<rparr>,
                     [\<lparr>l_report = requestId, l_key = fileKey_of url, l_total = tot,
                       l_loaded = 0\<rparr>])
              | V3 \<Rightarrow>
                  if \<not> has_body then (w, [])
                  else if \<not> isModelAsset V3 url then (w, [])
                  else if tot = 0
                  then (postProgress requestId (Loading DescargandoModelo None) w, [])
                  else
                    (w, [\<lparr>l_report = requestId, l_key = fileKey_of url, l_total = tot,
                          l_loaded = 0\<rparr>])))"

fun fetch_layers ::
  "version \<Rightarrow> js_string \<Rightarrow> nat option \<Rightarrow> bool \<Rightarrow> string option list \<Rightarrow> worker
     \<Rightarrow> worker \<times> layer list" where
  "fetch_layers v url content_length has_body [] w = (w, [])"
| "fetch_layers v url content_length has_body (rep # reps) w =
     (let (w1, ls1) = fetch_layer v url content_length has_body rep w;
          (w2, ls2) = fetch_layers v url content_length has_body reps w1
      in (w2, ls1 @ ls2))"

text \<open>
  A chunk read through one stream. Version 2:
  \<^verbatim>\<open>const info = downloadTracker.get(fileKey);
  if (info && value) info.loaded += value.byteLength;
  const totalPct = calculateTotalProgress();
  if (totalPct !== null) report({ ..., label: 'Descargando modelo', percent: totalPct });\<close>
  Version 3:
  \<^verbatim>\<open>loaded += value?.byteLength || 0;
  const pct = Math.min(99, Math.round((loaded / total) * 100));
  report({ phase: 'loading', label: 'Descargando modelo', percent: pct });\<close>
\<close>

definition report_total :: "string \<Rightarrow> worker \<Rightarrow> worker" where
  "report_total requestId w =
     (case calculateTotalProgress (downloadTracker w) of
        None \<Rightarrow> w
      | Some totalPct \<Rightarrow> postProgress requestId (Loading DescargandoModelo (Some totalPct)) w)"

definition chunk_layer :: "version \<Rightarrow> nat \<Rightarrow> layer \<Rightarrow> worker \<Rightarrow> worker \<times> layer" where
  "chunk_layer v n l w =
     (case v of
        V2 \<Rightarrow>
          (let w1 = (case map_of (downloadTracker w) (l_key l) of
                       None \<Rightarrow> w
                     | Some info \<Rightarrow>
                         w\<lparr>downloadTracker :=
                              AList.update (l_key l) (info\<lparr>loaded := loaded info + n\<rparr>)
                                (downloadTracker w)\<rparr>)
           in (report_total (l_report l) w1, l))
      | V3 \<Rightarrow>
          (let l1 = l\<lparr>l_loaded := l_loaded l + n\<rparr>;
               pct = min 99 (round (js_mul (js_div (of_nat (l_loaded l1)) (of_nat (l_total l1))) 100))
           in (postProgress (l_report l) (Loading DescargandoModelo (Some pct)) w, l1)))"

text \<open>
  The end of a body. Version 2:
  \<^verbatim>\<open>const info = downloadTracker.get(fileKey);
  if (info) info.loaded = info.total;
  const totalPct = calculateTotalProgress();
  if (totalPct !== null) report({ ..., percent: totalPct });\<close>
  Version 3:
  \<^verbatim>\<open>report({ phase: 'loading', label: 'Modelo descargado', percent: 100 });\<close>
\<close>

definition done_layer :: "version \<Rightarrow> layer \<Rightarrow> worker \<Rightarrow> worker \<times> layer" where
  "done_layer v l w =
     (case v of
        V2 \<Rightarrow>
          (let w1 = (case map_of (downloadTracker w) (l_key l) of
                       None \<Rightarrow> w
                     | Some info \<Rightarrow>
                         w\<lparr>downloadTracker :=
                              AList.update (l_key l) (info\<lparr>loaded := total info\<rparr>)
                                (downloadTracker w)\<rparr>)
           in (report_total (l_report l) w1, l))
      | V3 \<Rightarrow> (postProgress (l_report l) (Loading ModeloDescargado (Some 100)) w, l))"

text \<open>\<open>cancel\<close>: version 2 deletes the file from the tracker; version 3 only cancels the
  reader.\<close>

definition cancel_layer :: "version \<Rightarrow> layer \<Rightarrow> worker \<Rightarrow> worker \<times> layer" where
  "cancel_layer v l w =
     (case v of
        V2 \<Rightarrow> (w\<lparr>downloadTracker := AList.delete (l_key l) (downloadTracker w)\<rparr>, l)
      | V3 \<Rightarrow> (w, l))"

text \<open>An event of a body passes through the streams over it, innermost first.\<close>

fun through_layers ::
  "(layer \<Rightarrow> worker \<Rightarrow> worker \<times> layer) \<Rightarrow> layer list \<Rightarrow> worker \<Rightarrow> worker \<times> layer list" where
  "through_layers f [] w = (w, [])"
| "through_layers f (l # ls) w =
     (let (w1, l1) = f l w; (w2, ls2) = through_layers f ls w1 in (w2, l1 # ls2))"

text \<open>
  The native progress callback of version 2 (version 3 passes none):
  \<^verbatim>\<open>if (report && progressInfo) {
    if (status === 'downloading' || status === 'progress') {
      const pct = typeof progress === 'number' ? Math.round(progress) : null;
      report({ ..., label: file ? `Descargando ${file}` : 'Descargando modelo', percent: pct });
    } else if (status === 'done') {
      report({ phase: 'loading', label: 'Modelo listo', percent: 100 });
    } }\<close>
\<close>

definition progress_callback ::
  "version \<Rightarrow> string option \<Rightarrow> string \<Rightarrow> rat option \<Rightarrow> string option \<Rightarrow> worker \<Rightarrow> worker" where
  "progress_callback v rep status progress file_name w =
     (case v of
        V3 \<Rightarrow> w
      | V2 \<Rightarrow>
          if status = ''downloading'' \<or> status = ''progress''
          then report rep
                 (Loading (case file_name of None \<Rightarrow> DescargandoModelo | Some f \<Rightarrow> Descargando f)
                    (map_option round progress)) w
          else if status = ''done'' then report rep (Loading ModeloListo (Some 100)) w
          else w)"

text \<open>
  One event of a load. \<open>fetch\<close> is the fetch the library calls (\<open>globalThis.fetch\<close> for
  version 2, \<open>env.fetch\<close> for version 3), \<open>rep\<close> the \<open>report\<close> of the load, \<open>streams\<close> the
  streams over the bodies of the fetches so far.
\<close>

definition load_step ::
  "version \<Rightarrow> string option \<Rightarrow> load_event \<Rightarrow> worker \<times> layer list list
     \<Rightarrow> worker \<times> layer list list" where
  "load_step v rep ev st =
     (let (w, streams) = st;
          fetch = (case v of V2 \<Rightarrow> globalFetch w
                   | V3 \<Rightarrow> (case envFetch w of None \<Rightarrow> globalFetch w | Some f \<Rightarrow> f))
      in case ev of
           Fetch url content_length has_body \<Rightarrow>
             (let (w1, ls) = fetch_layers v url content_length has_body (reports_of fetch) w
              in (w1, streams @ [ls]))
         | Chunk i n \<Rightarrow>
             (if i < length streams
              then (let (w1, ls) = through_layers (chunk_layer v n) (streams ! i) w
                    in (w1, streams[i := ls]))
              else (w, streams))
         | Done i \<Rightarrow>
             (if i < length streams
              then (let (w1, ls) = through_layers (done_layer v) (streams ! i) w
                    in (w1, streams[i := ls]))
              else (w, streams))
         | Cancel i \<Rightarrow>
             (if i < length streams
              then (let (w1, ls) = through_layers (cancel_layer v) (streams ! i) w
                    in (w1, streams[i := ls]))
              else (w, streams))
         | NativeProgress status progress file_name \<Rightarrow>
             (progress_callback v rep status progress file_name w, streams))"

definition run_load ::
  "version \<Rightarrow> string option \<Rightarrow> load_event list \<Rightarrow> worker \<Rightarrow> worker" where
  "run_load v rep evs w = fst (foldl (\<lambda>st ev. load_step v rep ev st) (w, []) evs)"

subsection \<open>ensurePipeline\<close>

text \<open>
  Version 2:
  \<^verbatim>\<open>if (featureExtractionPipeline && currentConfig.modelId === modelId
      && currentConfig.device === device) return featureExtractionPipeline;
  downloadTracker.clear();
  const originalFetch = globalThis.fetch;
  globalThis.fetch = async function (input, init) { ... };
  if (report) report({ phase: 'loading', label: 'Iniciando descarga', percent: 0 });
  const resolvedDevice = device || 'wasm';
  try {
    featureExtractionPipeline = await pipeline('feature-extraction', modelId, {...});
    currentConfig = { modelId, device: resolvedDevice };
    globalThis.fetch = originalFetch;
    if (report) report({ phase: 'loading', label: 'Modelo listo', percent: 100 });
    return featureExtractionPipeline;
  } catch (err) { globalThis.fetch = originalFetch; throw err; }\<close>

  Version 3:
  \<^verbatim>\<open>if (... same test ...) return featureExtractionPipeline;
  const baseFetch = env.fetch || fetch;
  env.fetch = async (...args) => { ... };
  const resolvedDevice = device || 'wasm';
  featureExtractionPipeline = await pipeline('feature-extraction', modelId, {...});
  currentConfig = { modelId, device: resolvedDevice };
  if (report) report({ phase: 'loading', label: 'Modelo listo', percent: 100 });
  return featureExtractionPipeline;\<close>

  The flags \<open>env.allowRemoteModels\<close>, \<open>env.useBrowserCache\<close> and \<open>env.allowLocalModels\<close> are
  set and never read by the worker; they are not part of the state.
\<close>

definition load_pipeline ::
  "version \<Rightarrow> library \<Rightarrow> string \<Rightarrow> string \<Rightarrow> string option \<Rightarrow> worker
     \<Rightarrow> (js_error + pipe) \<times> worker" where
  "load_pipeline v lib model dev rep w =
     (let resolvedDevice = or_else (Some dev) ''wasm'';
          script = lib model resolvedDevice
      in case v of
           V2 \<Rightarrow>
             (let w1 = w\<lparr>downloadTracker := []\<rparr>;
                  originalFetch = globalFetch w1;
                  w2 = w1\<lparr>globalFetch := Interceptor rep originalFetch\<rparr>;
                  w3 = report rep (Loading IniciandoDescarga (Some 0)) w2;
                  w4 = w3\<lparr>trace := trace w3 @ [PipelineCall model resolvedDevice]\<rparr>;
                  w5 = run_load V2 rep (events script) w4
              in case outcome script of
                   Inr p \<Rightarrow>
                     (Inr p,
                      report rep (Loading ModeloListo (Some 100))
                        (w5\<lparr>featureExtractionPipeline := Some p,
                            currentConfig := (Some model, Some resolvedDevice),
                            globalFetch := originalFetch\<rparr>))
                 | Inl err \<Rightarrow> (Inl err, w5\<lparr>globalFetch := originalFetch\<rparr>))
         | V3 \<Rightarrow>
             (let baseFetch = (case envFetch w of None \<Rightarrow> globalFetch w | Some f \<Rightarrow> f);
                  w2 = w\<lparr>envFetch := Some (Interceptor rep baseFetch)\<rparr>;
                  w4 = w2\<lparr>trace := trace w2 @ [PipelineCall model resolvedDevice]\<rparr>;
                  w5 = run_load V3 rep (events script) w4
              in case outcome script of
                   Inr p \<Rightarrow>
                     (Inr p,
                      report rep (Loading ModeloListo (Some 100))
                        (w5\<lparr>featureExtractionPipeline := Some p,
                            currentConfig := (Some model, Some resolvedDevice)\<rparr>))
                 | Inl err \<Rightarrow> (Inl err, w5)))"

definition ensurePipeline ::
  "version \<Rightarrow> library \<Rightarrow> string \<Rightarrow> string \<Rightarrow> string option \<Rightarrow> worker
     \<Rightarrow> (js_error + pipe) \<times> worker" where
  "ensurePipeline v lib model dev rep w =
     (case featureExtractionPipeline w of
        Some p \<Rightarrow>
          if currentConfig w = (Some model, Some dev) then (Inr p, w)
          else load_pipeline v lib model dev rep w
      | None \<Rightarrow> load_pipeline v lib model dev rep w)"

subsection \<open>The message handler\<close>

definition default_model :: "version \<Rightarrow> string" where
  "default_model v =
     (case v of V2 \<Rightarrow> ''Xenova/paraphrase-multilingual-MiniLM-L12-v2''
      | V3 \<Rightarrow> ''Xenova/multilingual-e5-large'')"

text \<open>\<^verbatim>\<open>if (!vectorLike) return null; if (Array.isArray(vectorLike)) return vectorLike;
  if (ArrayBuffer.isView(vectorLike)) return Array.from(vectorLike); return vectorLike;\<close>\<close>

definition toPlainArray :: "vector_like \<Rightarrow> vector_like" where
  "toPlainArray vectorLike =
     (case vectorLike of
        VNull \<Rightarrow> VNull
      | VArray a \<Rightarrow> VArray a
      | VTyped a \<Rightarrow> VArray a
      | VOther \<Rightarrow> VOther)"

text \<open>\<^verbatim>\<open>const vector = Array.isArray(output) ? output : output?.data;\<close>\<close>

definition vector_of :: "pipe_output \<Rightarrow> vector_like" where
  "vector_of output = (case output of OutArray a \<Rightarrow> VArray a | OutTensor d \<Rightarrow> d)"

text \<open>
  \<^verbatim>\<open>for (let i = 0; i < texts.length; i++) {
    postProgress(requestId, { phase: 'running', index: i, total: texts.length,
      percent: Math.round(((i + 1) / texts.length) * 100) });
    const output = await pipe(texts[i], { pooling: 'mean', normalize: true });
    const vector = Array.isArray(output) ? output : output?.data;
    embeddings.push(toPlainArray(vector));
  }\<close>
  An exception of the pipeline leaves the loop.
\<close>

fun embed_loop ::
  "pipe \<Rightarrow> string \<Rightarrow> nat \<Rightarrow> nat \<Rightarrow> js_value list \<Rightarrow> vector_like list \<Rightarrow> worker
     \<Rightarrow> (js_error + vector_like list) \<times> worker" where
  "embed_loop pipe requestId n i [] embeddings w = (Inr embeddings, w)"
| "embed_loop pipe requestId n i (t # ts) embeddings w =
     (let w1 = postProgress requestId
                 (Running i n (round (js_mul (js_div (of_nat (i + 1)) (of_nat n)) 100))) w;
          w2 = w1\<lparr>trace := trace w1 @ [PipeCall t]\<rparr>
      in case pipe t of
           Inl err \<Rightarrow> (Inl err, w2)
         | Inr output \<Rightarrow>
             embed_loop pipe requestId n (i + 1) ts
               (embeddings @ [toPlainArray (vector_of output)]) w2)"

text \<open>
  The listener. Every branch ends with one response; an exception thrown in a branch is
  caught and answered with a failed response that carries its message.
\<close>

definition handle_message :: "version \<Rightarrow> library \<Rightarrow> request \<Rightarrow> worker \<Rightarrow> worker" where
  "handle_message v lib rq w =
     (let requestId = req_id rq; p = req_payload rq
      in if req_type rq = ''status'' then
           postResponse requestId
             (Inr (StatusResult (featureExtractionPipeline w \<noteq> None) (currentConfig w))) w
         else if req_type rq = ''clearCache'' then
           postResponse requestId (Inr Cleared)
             (w\<lparr>featureExtractionPipeline := None, currentConfig := (None, None),
                downloadTracker := (case v of V2 \<Rightarrow> [] | V3 \<Rightarrow> downloadTracker w)\<rparr>)
         else if req_type rq = ''init'' then
           (let model = or_else (p_modelId p) (default_model v);
                dev = or_else (p_device p) ''wasm'';
                w1 = postProgress requestId
                       (case v of V2 \<Rightarrow> Loading IniciandoCarga (Some 0) | V3 \<Rightarrow> LoadingMessage) w
            in case ensurePipeline v lib model dev (Some requestId) w1 of
                 (Inl err, w2) \<Rightarrow> postResponse requestId (Inl (Thrown err)) w2
               | (Inr pipe, w2) \<Rightarrow> postResponse requestId (Inr (Ready (currentConfig w2))) w2)
         else if req_type rq = ''embed'' then
           (let model = or_else (p_modelId p)
                            (or_else (fst (currentConfig w)) (default_model v));
                dev = or_else (p_device p) (or_else (snd (currentConfig w)) ''wasm'')
            in case p_texts p of
                 JArray texts \<Rightarrow>
                   if texts = [] then postResponse requestId (Inl InvalidInput) w
                   else
                     (case ensurePipeline v lib model dev (Some requestId) w of
                        (Inl err, w2) \<Rightarrow> postResponse requestId (Inl (Thrown err)) w2
                      | (Inr pipe, w2) \<Rightarrow>
                          (case embed_loop pipe requestId (length texts) 0 texts [] w2 of
                             (Inl err, w3) \<Rightarrow> postResponse requestId (Inl (Thrown err)) w3
                           | (Inr embeddings, w3) \<Rightarrow>
                               postResponse requestId
                                 (Inr (Embeddings (fst (currentConfig w3)) (snd (currentConfig w3))
                                        embeddings)) w3))
               | _ \<Rightarrow> postResponse requestId (Inl InvalidInput) w)
         else postResponse requestId (Inl (UnknownMessageType (req_type rq))) w)"

text \<open>A worker that has just started.\<close>

definition initial_worker :: worker where
  "initial_worker =
     \<lparr> featureExtractionPipeline = None, currentConfig = (None, None), downloadTracker = [],
       globalFetch = NativeFetch, envFetch = None, trace = [] \<rparr>"

subsection \<open>Predicates and example data\<close>

text \<open>A library whose loads succeed at once with a pipeline that knows two texts.\<close>

definition stub_pipe :: pipe where
  "stub_pipe t =
     (if t = JText (js ''hola'') then Inr (OutArray [1, 0])
      else if t = JText (js ''mundo'') then Inr (OutTensor (VTyped [0, 1]))
      else Inl (Error ''unsupported input''))"

definition stub_library :: library where
  "stub_library model dev = \<lparr> events = [], outcome = Inr stub_pipe \<rparr>"

definition embed_request :: "js_value \<Rightarrow> request" where
  "embed_request texts =
     \<lparr> req_type = ''embed'', req_id = ''r1'',
       req_payload = \<lparr> p_modelId = None, p_device = None, p_texts = texts \<rparr> \<rparr>"

text \<open>The effects of the loop on texts the pipeline accepts: for each text, the progress
  message and then the call of the pipeline.\<close>

fun running_effects :: "string \<Rightarrow> nat \<Rightarrow> nat \<Rightarrow> js_value list \<Rightarrow> effect list" where
  "running_effects requestId n i [] = []"
| "running_effects requestId n i (t # ts) =
     Posted (Progress requestId
               (Running i n (round (js_mul (js_div (of_nat (i + 1)) (of_nat n)) 100))))
       # PipeCall t # running_effects requestId n (i + 1) ts"

text \<open>The parts of the state the fetch wrappers and the progress callback do not touch.\<close>

definition same_fetch :: "worker \<Rightarrow> worker \<Rightarrow> bool" where
  "same_fetch w w' = (globalFetch w' = globalFetch w \<and> envFetch w' = envFetch w)"

text \<open>Libraries whose loads fail, or fetch one file without a content length, and an
  \<open>init\<close> request.\<close>

definition failing_library :: library where
  "failing_library model dev = \<lparr> events = [], outcome = Inl (Error ''network error'') \<rparr>"

definition init_request :: "string \<Rightarrow> string \<Rightarrow> request" where
  "init_request requestId model =
     \<lparr> req_type = ''init'', req_id = requestId,
       req_payload = \<lparr> p_modelId = Some model, p_device = None, p_texts = JUndefined \<rparr> \<rparr>"

text \<open>A library that fetches one file without a content length.\<close>

definition fetching_library :: library where
  "fetching_library model dev =
     \<lparr> events = [Fetch (js ''https://huggingface.co/m/config.json'') None True],
       outcome = Inr stub_pipe \<rparr>"

text \<open>
  \<open>ensurePipeline\<close> is asynchronous: it runs up to \<open>await pipeline(...)\<close>, and goes on when
  the library has settled the load. Version 2 in its two halves: the first returns the
  fetch it found, which the second puts back.
\<close>

definition begin_load_v2 :: "string option \<Rightarrow> worker \<Rightarrow> fetch_impl \<times> worker" where
  "begin_load_v2 rep w =
     (globalFetch w,
      report rep (Loading IniciandoDescarga (Some 0))
        (w\<lparr>downloadTracker := [], globalFetch := Interceptor rep (globalFetch w)\<rparr>))"

definition finish_load_v2 ::
  "fetch_impl \<Rightarrow> string \<Rightarrow> string \<Rightarrow> string option \<Rightarrow> js_error + pipe \<Rightarrow> worker \<Rightarrow> worker" where
  "finish_load_v2 originalFetch model resolvedDevice rep result w =
     (case result of
        Inr p \<Rightarrow>
          report rep (Loading ModeloListo (Some 100))
            (w\<lparr>featureExtractionPipeline := Some p,
               currentConfig := (Some model, Some resolvedDevice),
               globalFetch := originalFetch\<rparr>)
      | Inl err \<Rightarrow> w\<lparr>globalFetch := originalFetch\<rparr>)"

text \<open>A report of the fetch wrapper of version 2: label \<open>'Descargando modelo'\<close>, and a
  percentage that is null or at most 99.\<close>

fun capped_report :: "effect \<Rightarrow> bool" where
  "capped_report (Posted (Progress r (Loading DescargandoModelo None))) = True"
| "capped_report (Posted (Progress r (Loading DescargandoModelo (Some q)))) = (q \<le> 99)"
| "capped_report e = False"

text \<open>A report of the fetch wrapper of version 3: the same, or label
  \<open>'Modelo descargado'\<close> with 100.\<close>

fun wrapper_report_v3 :: "effect \<Rightarrow> bool" where
  "wrapper_report_v3 (Posted (Progress r (Loading ModeloDescargado q))) = (q = Some 100)"
| "wrapper_report_v3 e = capped_report e"

text \<open>What the native progress callback of version 2 posts to a request for an event of
  the library: the rounded progress of the library for the statuses \<open>'downloading'\<close> and
  \<open>'progress'\<close>, 100 for \<open>'done'\<close>, nothing for another status.\<close>

definition native_posts ::
  "string \<Rightarrow> string \<Rightarrow> rat option \<Rightarrow> string option \<Rightarrow> effect list" where
  "native_posts requestId status progress file_name =
     (if status = ''downloading'' \<or> status = ''progress''
      then [Posted (Progress requestId
              (Loading (case file_name of None \<Rightarrow> DescargandoModelo | Some f \<Rightarrow> Descargando f)
                 (map_option round progress)))]
      else if status = ''done''
      then [Posted (Progress requestId (Loading ModeloListo (Some 100)))]
      else [])"

text \<open>An event of a load for which the native progress callback posts nothing: a fetch,
  a chunk, the end or the cancellation of a body, or a native event of another status than
  the three above.\<close>

fun silent :: "load_event \<Rightarrow> bool" where
  "silent (NativeProgress status progress file_name) =
     (status \<noteq> ''downloading'' \<and> status \<noteq> ''progress'' \<and> status \<noteq> ''done'')"
| "silent ev = True"

text \<open>What one event of a load of version 2 gets posted: a native event what the
  callback posts, any other event reports of the fetch wrapper only.\<close>

fun event_reports :: "string \<Rightarrow> load_event \<Rightarrow> effect list \<Rightarrow> bool" where
  "event_reports requestId (NativeProgress status progress file_name) seg =
     (seg = native_posts requestId status progress file_name)"
| "event_reports requestId ev seg = list_all capped_report seg"

text \<open>\<open>w'\<close> is \<open>w\<close> after some messages were posted, all of them of the kind \<open>P\<close>.\<close>

definition reports_only :: "(effect \<Rightarrow> bool) \<Rightarrow> worker \<Rightarrow> worker \<Rightarrow> bool" where
  "reports_only P w w' = (\<exists>new. trace w' = trace w @ new \<and> list_all P new)"

text \<open>
  A load that fetches two files of 30 and 10 bytes. The library announces the first file
  with a native event of status \<open>'initiate'\<close>; the bodies arrive in three chunks of 13, 10
  and 17 bytes.
\<close>

definition two_file_library :: library where
  "two_file_library model dev =
     \<lparr> events =
         [NativeProgress ''initiate'' None (Some ''model.onnx''),
          Fetch (js ''https://huggingface.co/m/resolve/main/model.onnx'') (Some 30) True,
          Fetch (js ''https://huggingface.co/m/resolve/main/config.json'') (Some 10) True,
          Chunk 0 13, Chunk 1 10, Done 1, Chunk 0 17, Done 0],
       outcome = Inr stub_pipe \<rparr>"

text \<open>A load during which the library reports the progress of a file by its callback.\<close>

definition native_library :: library where
  "native_library model dev =
     \<lparr> events =
         [NativeProgress ''progress'' (Some 100) (Some ''model.onnx''),
          NativeProgress ''done'' None (Some ''model.onnx'')],
       outcome = Inr stub_pipe \<rparr>"

section \<open>The RPC client of the worker\<close>

text \<open>
  \<open>createWorkerRpcClient\<close> keeps a map of pending calls. A call makes a promise, arms a
  timer, stores an entry under its request identifier and posts the request. The state of
  the client is the map, the timers that are armed, the clock, the promises made so far
  (settled or not), the payloads handed to progress callbacks and the requests posted.
  Payloads, results and errors of the worker are opaque to the client: strings.
\<close>

record pending_entry =
  e_promise :: nat
  e_onProgress :: bool
  e_timeoutId :: nat

record timer =
  t_id :: nat
  t_due :: nat
  t_requestId :: string
  t_promise :: nat
  t_type :: string

datatype rpc_error =
    TimeoutError string
  | WorkerFailure string
  | UnknownWorkerError
  | ClientDisposed

datatype settlement = Resolved string | Rejected rpc_error

text \<open>What arrives on the message channel: something that is not a worker message, a
  progress message, or a response (identifier, \<open>ok\<close>, result, error if any).\<close>

datatype incoming =
    NotWorkerMessage
  | ProgressIn string string
  | ResponseIn string bool string "string option"

record client =
  pending :: "(string \<times> pending_entry) list"
  timers :: "timer list"
  next_timer :: nat
  now :: nat
  promises :: "settlement option list"
  progress_calls :: "(string \<times> string) list"
  sent :: "(string \<times> string \<times> string) list"
  listening :: bool
  worker_terminated :: bool

text \<open>A promise is settled once: a later \<open>resolve\<close> or \<open>reject\<close> does nothing.\<close>

definition settle :: "nat \<Rightarrow> settlement \<Rightarrow> client \<Rightarrow> client" where
  "settle i s c =
     (if i < length (promises c) \<and> promises c ! i = None
      then c\<lparr>promises := (promises c)[i := Some s]\<rparr>
      else c)"

definition clearTimeout :: "nat \<Rightarrow> client \<Rightarrow> client" where
  "clearTimeout tid c = c\<lparr>timers := filter (\<lambda>t. t_id t \<noteq> tid) (timers c)\<rparr>"

text \<open>
  \<^verbatim>\<open>const onMessage = (event) => {
    const data = event.data;
    if (!isWorkerMessage(data)) return;
    const entry = pending.get(data.requestId);
    if (!entry) return;
    if (data.type === 'progress') { entry.onProgress?.(data.payload); return; }
    if (data.type === 'response') {
      if (entry.timeoutId) window.clearTimeout(entry.timeoutId);
      pending.delete(data.requestId);
      if (data.ok) entry.resolve(data.result);
      else entry.reject(data.error ?? new Error('Error desconocido del Worker de embeddings.'));
    } };\<close>
\<close>

definition onMessage :: "incoming \<Rightarrow> client \<Rightarrow> client" where
  "onMessage data c =
     (case data of
        NotWorkerMessage \<Rightarrow> c
      | ProgressIn requestId p \<Rightarrow>
          (case map_of (pending c) requestId of
             None \<Rightarrow> c
           | Some entry \<Rightarrow>
               if e_onProgress entry
               then c\<lparr>progress_calls := progress_calls c @ [(requestId, p)]\<rparr>
               else c)
      | ResponseIn requestId ok result err \<Rightarrow>
          (case map_of (pending c) requestId of
             None \<Rightarrow> c
           | Some entry \<Rightarrow>
               (let c1 = (if e_timeoutId entry \<noteq> 0 then clearTimeout (e_timeoutId entry) c
                          else c);
                    c2 = c1\<lparr>pending := AList.delete requestId (pending c1)\<rparr>
                in if ok then settle (e_promise entry) (Resolved result) c2
                   else settle (e_promise entry)
                          (Rejected (case err of None \<Rightarrow> UnknownWorkerError
                                     | Some e \<Rightarrow> WorkerFailure e)) c2)))"

text \<open>
  \<^verbatim>\<open>const requestId = randomId();
  const timeoutMs = opts?.timeoutMs ?? 60_000;
  return await new Promise((resolve, reject) => {
    const timeoutId = window.setTimeout(() => {
      pending.delete(requestId);
      reject(new Error(`Timeout llamando al Worker (${type}).`));
    }, timeoutMs);
    pending.set(requestId, { resolve, reject, onProgress: opts?.onProgress, timeoutId });
    worker.postMessage({ type, requestId, payload });
  });\<close>
  The identifier comes from \<open>randomId\<close> and is a parameter here. The promise of the call
  is the next in \<open>promises\<close>.
\<close>

definition timeout_of :: "nat option \<Rightarrow> nat" where
  "timeout_of timeoutMs = (case timeoutMs of None \<Rightarrow> 60000 | Some ms \<Rightarrow> ms)"

definition call ::
  "string \<Rightarrow> string \<Rightarrow> string \<Rightarrow> nat option \<Rightarrow> bool \<Rightarrow> client \<Rightarrow> client" where
  "call requestId ty p timeoutMs onProgress c =
     (let i = length (promises c);
          timeoutId = next_timer c
      in c\<lparr> promises := promises c @ [None],
            timers := timers c @ [\<lparr> t_id = timeoutId, t_due = now c + timeout_of timeoutMs,
                                    t_requestId = requestId, t_promise = i, t_type = ty \<rparr>],
            next_timer := Suc timeoutId,
            pending := AList.update requestId
                          \<lparr> e_promise = i, e_onProgress = onProgress, e_timeoutId = timeoutId \<rparr>
                          (pending c),
            sent := sent c @ [(ty, requestId, p)] \<rparr>)"

text \<open>The callback of a timer: the entry under the identifier is deleted and the promise
  of the call is rejected with the timeout error.\<close>

definition fire :: "timer \<Rightarrow> client \<Rightarrow> client" where
  "fire t c =
     settle (t_promise t) (Rejected (TimeoutError (t_type t)))
       (c\<lparr>pending := AList.delete (t_requestId t) (pending c)\<rparr>)"

text \<open>Time passes: the timers that are due by the new time fire, the earliest first,
  and are gone.\<close>

definition advance :: "nat \<Rightarrow> client \<Rightarrow> client" where
  "advance d c =
     (let t' = now c + d;
          due = sort_key t_due (filter (\<lambda>t. t_due t \<le> t') (timers c))
      in foldl (\<lambda>c t. fire t c)
           (c\<lparr>now := t', timers := filter (\<lambda>t. \<not> t_due t \<le> t') (timers c)\<rparr>) due)"

text \<open>
  \<^verbatim>\<open>worker.removeEventListener('message', onMessage);
  for (const [id, entry] of pending.entries()) {
    if (entry.timeoutId) window.clearTimeout(entry.timeoutId);
    entry.reject(new Error('RPC client disposed'));
    pending.delete(id);
  }
  worker.terminate();\<close>
\<close>

definition dispose :: "client \<Rightarrow> client" where
  "dispose c =
     (foldl (\<lambda>c (requestId, entry).
               settle (e_promise entry) (Rejected ClientDisposed)
                 ((if e_timeoutId entry \<noteq> 0 then clearTimeout (e_timeoutId entry) c else c)
                    \<lparr>pending := AList.delete requestId (pending c)\<rparr>))
        (c\<lparr>listening := False\<rparr>) (pending c))
     \<lparr>worker_terminated := True\<rparr>"

text \<open>What happens to a client between two of its own operations: a message arrives (and
  is handled while the listener is registered), or time passes.\<close>

datatype client_event = Deliver incoming | Advance nat

definition client_step :: "client \<Rightarrow> client_event \<Rightarrow> client" where
  "client_step c ev =
     (case ev of
        Deliver data \<Rightarrow> if listening c then onMessage data c else c
      | Advance d \<Rightarrow> advance d c)"

definition run_client :: "client_event list \<Rightarrow> client \<Rightarrow> client" where
  "run_client evs c = foldl client_step c evs"


text \<open>A client that has just been created. The timer identifiers of a browser start
  at 1.\<close>

definition new_client :: client where
  "new_client =
     \<lparr> pending = [], timers = [], next_timer = 1, now = 0, promises = [],
       progress_calls = [], sent = [], listening = True, worker_terminated = False \<rparr>"

subsection \<open>Predicates and example data\<close>


chapter \<open>Properties\<close>

section \<open>Numbers\<close>

text \<open>Percentages as doubles give them. In exact arithmetic 23 of 40 is 57.5 percent,
  which rounds to 58; the double nearest to 23/40 lies below it, and so does the product
  with 100.\<close>

lemma percent_1_of_1: "round (js_mul (js_div 1 1) 100) = 100"
  by code_simp

lemma percent_1_of_2: "round (js_mul (js_div 1 2) 100) = 50"
  by code_simp

lemma percent_2_of_2: "round (js_mul (js_div 2 2) 100) = 100"
  by code_simp

lemma percent_23_of_40: "round (js_mul (js_div 23 40) 100) = 57"
  by code_simp

lemma percent_23_of_40_exact: "round ((23 / 40) * 100 :: rat) = 58"
  by code_simp

lemma percent_13_of_40: "round (js_mul (js_div 13 40) 100) = 33"
  by code_simp

lemma percent_40_of_40: "round (js_mul (js_div 40 40) 100) = 100"
  by code_simp

lemma percent_13_of_30: "round (js_mul (js_div 13 30) 100) = 43"
  by code_simp

lemma percent_10_of_10: "round (js_mul (js_div 10 10) 100) = 100"
  by code_simp

lemma percent_30_of_30: "round (js_mul (js_div 30 30) 100) = 100"
  by code_simp

lemmas percent_evals = percent_1_of_1 percent_1_of_2 percent_2_of_2 percent_23_of_40
  percent_13_of_40 percent_40_of_40 percent_13_of_30 percent_10_of_10 percent_30_of_30

section \<open>src/db/embeddings: upsertEmbeddings\<close>

subsection \<open>Facts about the statement\<close>

lemma conflict_key_on_conflict_set [simp]:
  "conflict_key (on_conflict_set v r) = conflict_key r"
  by (simp add: conflict_key_def on_conflict_set_def)

lemma filter_key_map_other:
  "conflict_key w \<noteq> k \<Longrightarrow>
   filter (\<lambda>r. conflict_key r = k)
     (map (\<lambda>r. if conflict_key r = conflict_key w then on_conflict_set w r else r) tbl)
   = filter (\<lambda>r. conflict_key r = k) tbl"
  by (induction tbl) auto

lemma rows_with_upsert_other:
  "conflict_key w \<noteq> k \<Longrightarrow> rows_with k (upsert_row tbl w) = rows_with k tbl"
  by (simp add: rows_with_def upsert_row_def filter_key_map_other)

lemma rows_with_upsert_same:
  "rows_with (conflict_key w) (upsert_row tbl w) =
     (if rows_with (conflict_key w) tbl = [] then [w]
      else map (on_conflict_set w) (rows_with (conflict_key w) tbl))"
proof -
  have a: "filter (\<lambda>r. conflict_key r = k) (map (\<lambda>r. if conflict_key r = k then on_conflict_set w r else r) tbl)
      = map (on_conflict_set w) (filter (\<lambda>r. conflict_key r = k) tbl)" for k
    by (induction tbl) auto
  have b: "(conflict_key w \<in> set (map conflict_key tbl)) = (filter (\<lambda>r. conflict_key r = conflict_key w) tbl \<noteq> [])"
    by (induction tbl) auto
  show ?thesis
    unfolding rows_with_def upsert_row_def using a b
    by (auto simp: filter_empty_conv)
qed

lemma rows_with_foldl_other:
  "k \<notin> set (map conflict_key vs) \<Longrightarrow> rows_with k (foldl upsert_row tbl vs) = rows_with k tbl"
  by (induction vs arbitrary: tbl) (auto simp: rows_with_upsert_other)

lemma rows_with_foldl_same:
  "distinct (map conflict_key vs) \<Longrightarrow> v \<in> set vs \<Longrightarrow>
   rows_with (conflict_key v) (foldl upsert_row tbl vs) =
     (if rows_with (conflict_key v) tbl = [] then [v]
      else map (on_conflict_set v) (rows_with (conflict_key v) tbl))"
proof (induction vs arbitrary: tbl)
  case Nil
  then show ?case by simp
next
  case (Cons w vs)
  show ?case
  proof (cases "w = v")
    case True
    with Cons.prems have "conflict_key v \<notin> set (map conflict_key vs)" by auto
    then show ?thesis using True
      by (simp add: rows_with_foldl_other rows_with_upsert_same)
  next
    case False
    with Cons.prems have v: "v \<in> set vs" and d: "distinct (map conflict_key vs)"
      and ne: "conflict_key w \<noteq> conflict_key v" by auto
    show ?thesis using Cons.IH[OF d v] ne by (simp add: rows_with_upsert_other)
  qed
qed

lemma map_conflict_key_on_conflict:
  "map conflict_key (map (\<lambda>r. if conflict_key r = k then on_conflict_set v r else r) tbl)
      = map conflict_key tbl"
  by (induction tbl) auto

lemma distinct_upsert_row:
  assumes "distinct (map conflict_key tbl)"
  shows "distinct (map conflict_key (upsert_row tbl v))"
proof (cases "conflict_key v \<in> set (map conflict_key tbl)")
  case True
  then have "upsert_row tbl v =
      map (\<lambda>r. if conflict_key r = conflict_key v then on_conflict_set v r else r) tbl"
    by (simp add: upsert_row_def)
  then show ?thesis using assms by (simp only: map_conflict_key_on_conflict)
next
  case False
  then show ?thesis using assms by (simp add: upsert_row_def)
qed

lemma distinct_foldl_upsert:
  "distinct (map conflict_key tbl) \<Longrightarrow> distinct (map conflict_key (foldl upsert_row tbl vs))"
  by (induction vs arbitrary: tbl) (auto simp: distinct_upsert_row)

lemma rows_with_distinct:
  "distinct (map conflict_key tbl) \<Longrightarrow> length (rows_with k tbl) \<le> 1"
proof (induction tbl)
  case Nil
  then show ?case by (simp add: rows_with_def)
next
  case (Cons r tbl)
  show ?case
  proof (cases "conflict_key r = k")
    case True
    from Cons.prems have "conflict_key r \<notin> conflict_key ` set tbl" by simp
    with True have "\<forall>x\<in>set tbl. conflict_key x \<noteq> k" by (metis imageI)
    then have "rows_with k tbl = []" by (simp add: rows_with_def filter_empty_conv)
    with True show ?thesis by (simp add: rows_with_def)
  next
    case False
    with Cons show ?thesis by (simp add: rows_with_def)
  qed
qed

lemma rows_with_after_upsert:
  assumes "distinct (map conflict_key tbl)" "distinct (map conflict_key vs)" "v \<in> set vs"
  shows "\<exists>r. rows_with (conflict_key v) (foldl upsert_row tbl vs) = [r] \<and>
     row_chunkText r = row_chunkText v \<and> row_pooling r = row_pooling v \<and>
     row_normalize r = row_normalize v \<and> row_contentHash r = row_contentHash v \<and>
     row_embedding r = row_embedding v"
proof (cases "rows_with (conflict_key v) tbl")
  case Nil
  then show ?thesis using rows_with_foldl_same[OF assms(2,3), of tbl] by simp
next
  case (Cons r rs)
  with rows_with_distinct[OF assms(1), of "conflict_key v"] have "rs = []" by simp
  with Cons show ?thesis using rows_with_foldl_same[OF assms(2,3), of tbl]
    by (simp add: on_conflict_set_def)
qed

lemma distinct_keys_of_items:
  "distinct (map conflict_key (map (to_value d) xs))
     = distinct (map (\<lambda>it. (chunkIndex it, modelId it, device it)) xs)"
  by (induction xs) (auto simp: conflict_key_def to_value_def)

lemma upsertEmbeddings_ok:
  assumes "items input \<noteq> []"
    and "distinct (map (\<lambda>it. (chunkIndex it, modelId it, device it)) (items input))"
    and "list_all (\<lambda>it. accepts (to_value (documentId input) it)) (items input)"
  shows "upsertEmbeddings accepts tbl input =
     (Inr (length (items input)), foldl upsert_row tbl (map (to_value (documentId input)) (items input)))"
proof -
  have d: "distinct (map conflict_key (map (to_value (documentId input)) (items input)))"
    using assms(2) by (simp only: distinct_keys_of_items)
  have "list_all accepts (map (to_value (documentId input)) (items input))"
    using assms(3) by (simp add: list_all_iff)
  with assms(1) d show ?thesis
    by (simp add: upsertEmbeddings_def insert_on_conflict_def Let_def)
qed

subsection \<open>C10: defaults of pooling and normalize\<close>

text \<open>
  C10. For every item passed to \<open>upsertEmbeddings\<close>, an omitted pooling is written as
  \<open>'mean'\<close>, and the normalize flag is written as 1 when it is omitted or true and as 0 only
  when it is false. The defaults are part of the proposed row, so after the statement has
  run (on a table with unique keys, with at least one item, distinct keys among the items
  and rows the schema accepts) the one row with the item's key holds them, whether it was
  inserted or overwritten by the conflict update.
\<close>

theorem upsert_defaults:
  assumes "items input \<noteq> []"
    and "distinct (map (\<lambda>it. (chunkIndex it, modelId it, device it)) (items input))"
    and "list_all (\<lambda>it. accepts (to_value (documentId input) it)) (items input)"
    and "distinct (map conflict_key tbl)"
    and "it \<in> set (items input)"
  shows "row_pooling (to_value (documentId input) it) = (case pooling it of None \<Rightarrow> ''mean'' | Some p \<Rightarrow> p)
    \<and> row_normalize (to_value (documentId input) it) = (if normalize it = Some False then 0 else 1)
    \<and> (\<exists>r. rows_with (conflict_key (to_value (documentId input) it))
               (snd (upsertEmbeddings accepts tbl input)) = [r]
           \<and> row_pooling r = (case pooling it of None \<Rightarrow> ''mean'' | Some p \<Rightarrow> p)
           \<and> row_normalize r = (if normalize it = Some False then 0 else 1))"
proof -
  let ?vs = "map (to_value (documentId input)) (items input)"
  let ?v = "to_value (documentId input) it"
  have p: "row_pooling ?v = (case pooling it of None \<Rightarrow> ''mean'' | Some p \<Rightarrow> p)"
    by (simp add: to_value_def)
  have n: "row_normalize ?v = (if normalize it = Some False then 0 else 1)"
    by (cases "normalize it") (auto simp: to_value_def)
  have d: "distinct (map conflict_key ?vs)"
    using assms(2) by (simp only: distinct_keys_of_items)
  have v: "?v \<in> set ?vs" using assms(5) by simp
  have s: "snd (upsertEmbeddings accepts tbl input) = foldl upsert_row tbl ?vs"
    using upsertEmbeddings_ok[OF assms(1,2,3), of tbl] by simp
  from rows_with_after_upsert[OF assms(4) d v] obtain r where
    "rows_with (conflict_key ?v) (foldl upsert_row tbl ?vs) = [r]"
    "row_pooling r = row_pooling ?v" "row_normalize r = row_normalize ?v"
    by blast
  with p n s show ?thesis by auto
qed

theorem upsert_defaults_witness:
  "\<exists>r. rows_with (''d1'', 0, ''m'', ''wasm'') (snd (upsertEmbeddings (\<lambda>r. True) ex_table ex_input1)) = [r]
       \<and> row_pooling r = ''mean'' \<and> row_normalize r = 1"
  using upsert_defaults [of ex_input1 "\<lambda>r. True" ex_table ex_item1]
  by (simp add: ex_input1_def ex_item1_def ex_table_def conflict_key_def to_value_def)

subsection \<open>C9: ingesting a key twice\<close>

text \<open>
  C9. Two calls of \<open>upsertEmbeddings\<close> that both carry an item with the same
  \<open>(documentId, chunkIndex, modelId, device)\<close> and chunk text (each call with at least one
  item, distinct keys among its items and rows the schema accepts, on a table with unique
  keys) both return the number of their items, and leave exactly one row with that key: it
  holds the second call's vector, the hash of the chunk text, the chunk text and the second
  call's pooling and normalize values.
\<close>

theorem upsert_twice_one_row:
  assumes "distinct (map conflict_key tbl)"
    and "items in1 \<noteq> []" and "items in2 \<noteq> []"
    and "distinct (map (\<lambda>it. (chunkIndex it, modelId it, device it)) (items in1))"
    and "distinct (map (\<lambda>it. (chunkIndex it, modelId it, device it)) (items in2))"
    and "list_all (\<lambda>it. accepts (to_value (documentId in1) it)) (items in1)"
    and "list_all (\<lambda>it. accepts (to_value (documentId in2) it)) (items in2)"
    and "it1 \<in> set (items in1)" and "it2 \<in> set (items in2)"
    and "documentId in1 = documentId in2" and "chunkIndex it1 = chunkIndex it2"
    and "modelId it1 = modelId it2" and "device it1 = device it2"
    and "chunkText it1 = chunkText it2"
  shows "\<exists>tbl1 tbl2 r.
      upsertEmbeddings accepts tbl in1 = (Inr (length (items in1)), tbl1)
    \<and> upsertEmbeddings accepts tbl1 in2 = (Inr (length (items in2)), tbl2)
    \<and> rows_with (documentId in1, chunkIndex it1, modelId it1, device it1) tbl2 = [r]
    \<and> row_embedding r = embedding it2
    \<and> row_contentHash r = fnv1a32 (chunkText it2)
    \<and> row_chunkText r = chunkText it1
    \<and> row_pooling r = (case pooling it2 of None \<Rightarrow> ''mean'' | Some p \<Rightarrow> p)
    \<and> row_normalize r = (if normalize it2 = Some False then 0 else 1)"
proof -
  let ?vs1 = "map (to_value (documentId in1)) (items in1)"
  let ?vs2 = "map (to_value (documentId in2)) (items in2)"
  let ?v2 = "to_value (documentId in2) it2"
  let ?tbl1 = "foldl upsert_row tbl ?vs1"
  let ?tbl2 = "foldl upsert_row ?tbl1 ?vs2"
  have c1: "upsertEmbeddings accepts tbl in1 = (Inr (length (items in1)), ?tbl1)"
    by (rule upsertEmbeddings_ok[OF assms(2,4,6)])
  have c2: "upsertEmbeddings accepts ?tbl1 in2 = (Inr (length (items in2)), ?tbl2)"
    by (rule upsertEmbeddings_ok[OF assms(3,5,7)])
  have d1: "distinct (map conflict_key ?tbl1)"
    by (rule distinct_foldl_upsert[OF assms(1)])
  have d2: "distinct (map conflict_key ?vs2)"
    using assms(5) by (simp only: distinct_keys_of_items)
  have v2: "?v2 \<in> set ?vs2" using assms(9) by simp
  have k: "conflict_key ?v2 = (documentId in1, chunkIndex it1, modelId it1, device it1)"
    using assms(10-13) by (simp add: conflict_key_def to_value_def)
  have n: "row_normalize ?v2 = (if normalize it2 = Some False then 0 else 1)"
    by (cases "normalize it2") (auto simp: to_value_def)
  from rows_with_after_upsert[OF d1 d2 v2] obtain r where
    r: "rows_with (conflict_key ?v2) ?tbl2 = [r]"
      "row_chunkText r = row_chunkText ?v2" "row_pooling r = row_pooling ?v2"
      "row_normalize r = row_normalize ?v2" "row_contentHash r = row_contentHash ?v2"
      "row_embedding r = row_embedding ?v2"
    by blast
  have "rows_with (documentId in1, chunkIndex it1, modelId it1, device it1) ?tbl2 = [r]"
    using r(1) k by simp
  moreover have "row_embedding r = embedding it2" using r(6) by (simp add: to_value_def)
  moreover have "row_contentHash r = fnv1a32 (chunkText it2)" using r(5) by (simp add: to_value_def)
  moreover have "row_chunkText r = chunkText it1" using r(2) assms(14) by (simp add: to_value_def)
  moreover have "row_pooling r = (case pooling it2 of None \<Rightarrow> ''mean'' | Some p \<Rightarrow> p)"
    using r(3) by (simp add: to_value_def)
  moreover have "row_normalize r = (if normalize it2 = Some False then 0 else 1)"
    using r(4) n by simp
  ultimately show ?thesis using c1 c2 by blast
qed

theorem upsert_twice_one_row_witness:
  "\<exists>tbl1 tbl2 r.
      upsertEmbeddings (\<lambda>r. True) ex_table ex_input1 = (Inr 1, tbl1)
    \<and> upsertEmbeddings (\<lambda>r. True) tbl1 ex_input2 = (Inr 1, tbl2)
    \<and> rows_with (''d1'', 0, ''m'', ''wasm'') tbl2 = [r]
    \<and> row_embedding r = [0, 1]
    \<and> row_contentHash r = fnv1a32 (js ''a'')
    \<and> row_chunkText r = js ''a''
    \<and> row_pooling r = ''mean''
    \<and> row_normalize r = 0"
  using upsert_twice_one_row [of ex_table ex_input1 ex_input2 "\<lambda>r. True" ex_item1 ex_item2]
  by (simp add: ex_input1_def ex_input2_def ex_item1_def ex_item2_def ex_table_def conflict_key_def)

section \<open>src/db/semantic-search: the excerpt\<close>

subsection \<open>Unfolding the definitions\<close>

text \<open>The definitions a concrete excerpt is computed with.\<close>

lemmas m_defs = m_tag_def m_image_def m_link_def bracket_paren_def m_fence_def m_code_def m_heading_def m_delimited_def m_strong_def m_em_def m_quote_def m_rule_def m_bullet_def m_ordered_def m_spaces_def trim_def is_space_def is_digit_def is_line_terminator_def at_line_start_def at_line_end_def js_def cu_def

lemma ex_excerpt1: "excerpt_of (js ''# A **bold**'') = js ''A bold''"
  by (simp add: excerpt_of_def normalizedText_def m_defs)

lemma ex_excerpt2: "excerpt_of [] = []"
  by (simp add: excerpt_of_def normalizedText_def m_defs)

subsection \<open>Facts about the excerpt\<close>

lemma single_spaced_Cons_nonspace:
  "\<not> is_space c \<Longrightarrow> single_spaced (c # xs) = single_spaced xs"
  by (cases xs) auto

lemma single_spaced_Cons_space:
  "single_spaced xs \<Longrightarrow> (xs = [] \<or> \<not> is_space (hd xs)) \<Longrightarrow> single_spaced (32 # xs)"
  by (cases xs) auto

lemma single_spaced_append:
  "single_spaced (xs @ ys) \<Longrightarrow> single_spaced xs \<and> single_spaced ys"
proof (induction xs rule: single_spaced.induct)
  case 1
  then show ?case by simp
next
  case (2 c)
  then show ?case by (cases ys) (auto split: if_splits)
next
  case (3 c d cs)
  then show ?case by (auto split: if_splits)
qed

lemma m_spaces_nonspace:
  "\<not> is_space c \<Longrightarrow> m_spaces prev (c # cs) = None"
  by (simp add: m_spaces_def)

lemma m_spaces_Nil: "m_spaces prev [] = None"
  by (simp add: m_spaces_def)

lemma m_spaces_space:
  "is_space c \<Longrightarrow>
     m_spaces prev (c # cs) = Some (Suc (length (takeWhile is_space cs)), [32])"
  by (simp add: m_spaces_def js_def cu_def)

lemma drop_takeWhile: "drop (length (takeWhile P xs)) xs = dropWhile P xs"
  by (induction xs) auto

lemma replace_spaces_head:
  "xs = [] \<or> \<not> is_space (hd xs) \<Longrightarrow>
     replace_all m_spaces prev xs = [] \<or> \<not> is_space (hd (replace_all m_spaces prev xs))"
  by (cases xs) (auto simp: m_spaces_nonspace m_spaces_Nil)

lemma single_spaced_replace_spaces:
  "single_spaced (replace_all m_spaces prev s)"
proof (induction "length s" arbitrary: s prev rule: less_induct)
  case less
  show ?case
  proof (cases s)
    case Nil
    then show ?thesis by (simp add: m_spaces_Nil)
  next
    case (Cons c cs)
    show ?thesis
    proof (cases "is_space c")
      case True
      let ?rest = "dropWhile is_space cs"
      let ?p = "Some ((c # cs) ! min (length (takeWhile is_space cs)) (length cs))"
      have r: "replace_all m_spaces prev s = 32 # replace_all m_spaces ?p ?rest"
        using Cons True by (simp add: m_spaces_space drop_takeWhile)
      have "length ?rest < length s" using Cons by (simp add: length_dropWhile_le le_imp_less_Suc)
      then have ih: "single_spaced (replace_all m_spaces ?p ?rest)" by (rule less)
      have "?rest = [] \<or> \<not> is_space (hd ?rest)" using hd_dropWhile by blast
      then have "replace_all m_spaces ?p ?rest = [] \<or> \<not> is_space (hd (replace_all m_spaces ?p ?rest))"
        by (rule replace_spaces_head)
      with ih r show ?thesis by (simp add: single_spaced_Cons_space)
    next
      case False
      have "length cs < length s" using Cons by simp
      then have "single_spaced (replace_all m_spaces (Some c) cs)" by (rule less)
      with False Cons show ?thesis
        by (simp add: m_spaces_nonspace single_spaced_Cons_nonspace)
    qed
  qed
qed

lemma single_spaced_trim: "single_spaced s \<Longrightarrow> single_spaced (trim s)"
proof -
  assume s: "single_spaced s"
  let ?u = "dropWhile is_space s"
  have "s = takeWhile is_space s @ ?u" by simp
  with s have u: "single_spaced ?u" using single_spaced_append by metis
  have "?u = rev (dropWhile is_space (rev ?u)) @ rev (takeWhile is_space (rev ?u))"
    by (metis rev_append rev_rev_ident takeWhile_dropWhile_id)
  with u have "single_spaced (rev (dropWhile is_space (rev ?u)))"
    using single_spaced_append by metis
  then show ?thesis by (simp add: trim_def)
qed

lemma trimmed_trim: "trimmed (trim s)"
proof (cases "trim s = []")
  case True
  then show ?thesis by (simp add: trimmed_def)
next
  case False
  let ?u = "dropWhile is_space s"
  let ?v = "dropWhile is_space (rev ?u)"
  have t: "trim s = rev ?v" by (simp add: trim_def)
  with False have v: "?v \<noteq> []" by simp
  then have l: "\<not> is_space (hd ?v)" by (rule hd_dropWhile)
  have last: "last (trim s) = hd ?v" using t v by (simp add: last_rev)
  have "?u = [] \<Longrightarrow> ?v = []" by (simp only: rev.simps dropWhile.simps)
  with v have u: "?u \<noteq> []" by blast
  then have hu: "\<not> is_space (hd ?u)" by (rule hd_dropWhile)
  have "?u = rev ?v @ rev (takeWhile is_space (rev ?u))"
    by (metis rev_append rev_rev_ident takeWhile_dropWhile_id)
  then have "hd ?u = hd (rev ?v)" using v by (metis hd_append2 rev_is_Nil_conv)
  with hu t have "\<not> is_space (hd (trim s))" by simp
  with l last False show ?thesis by (simp add: trimmed_def)
qed

lemma normalizedText_spaced: "single_spaced (normalizedText md) \<and> trimmed (normalizedText md)"
  unfolding normalizedText_def
  by (intro conjI single_spaced_trim single_spaced_replace_spaces trimmed_trim)

lemma excerpt_of_length: "length (excerpt_of md) \<le> 183"
  by (simp add: excerpt_of_def Let_def js_def)

lemma ex_excerpt3:
  "excerpt_of (js ''# Title'' @ [10, 10] @ js ''Some **bold** text with '' @ [96] @ js ''code''
               @ [96] @ js '' and a [link](url).'')
     = js ''Title Some bold text with and a link.''"
  by (simp add: excerpt_of_def normalizedText_def m_defs)

lemma replace_all_no_match:
  assumes "\<And>prev. m prev [] = None"
    and "\<And>prev c cs. plain c \<Longrightarrow> m prev (c # cs) = None"
  shows "list_all plain s \<Longrightarrow> replace_all m prev s = s"
  by (induction s arbitrary: prev) (simp_all add: assms)

lemma normalizedText_plain:
  assumes "list_all plain s"
  shows "normalizedText s = s"
proof -
  have r: "replace_all m None s = s"
    if "\<And>prev. m prev [] = None" "\<And>prev c cs. plain c \<Longrightarrow> m prev (c # cs) = None" for m
    using that assms by (rule replace_all_no_match)
  have 1: "replace_all m_tag None s = s" by (rule r) (simp_all add: m_tag_def plain_def js_def cu_def)
  have 2: "replace_all m_image None s = s" by (rule r) (simp_all add: m_image_def plain_def js_def cu_def)
  have 3: "replace_all m_link None s = s"
    by (rule r) (simp_all add: m_link_def bracket_paren_def plain_def js_def cu_def)
  have 4: "replace_all m_fence None s = s" by (rule r) (auto simp: m_fence_def plain_def js_def cu_def)
  have 5: "replace_all m_code None s = s" by (rule r) (simp_all add: m_code_def plain_def js_def cu_def)
  have 6: "replace_all m_heading None s = s"
    by (rule r) (simp_all add: m_heading_def plain_def js_def cu_def)
  have 7: "replace_all m_strong None s = s"
    by (rule r) (auto simp: m_strong_def m_delimited_def plain_def js_def cu_def)
  have 8: "replace_all m_em None s = s"
    by (rule r) (auto simp: m_em_def m_delimited_def plain_def js_def cu_def)
  have 9: "replace_all m_quote None s = s" by (rule r) (simp_all add: m_quote_def plain_def js_def cu_def)
  have 10: "replace_all m_rule None s = s" by (rule r) (simp_all add: m_rule_def plain_def js_def cu_def)
  have 11: "replace_all m_bullet None s = s"
    by (rule r) (simp_all add: m_bullet_def plain_def js_def cu_def)
  have 12: "replace_all m_ordered None s = s"
    by (rule r) (simp_all add: m_ordered_def plain_def js_def cu_def)
  have 13: "replace_all m_spaces None s = s" by (rule r) (simp_all add: m_spaces_def plain_def)
  have ns: "\<forall>c\<in>set s. \<not> is_space c" using assms by (simp add: list_all_iff plain_def)
  have "dropWhile is_space s = s" using ns by (cases s) auto
  moreover have "dropWhile is_space (rev s) = rev s" using ns by (cases "rev s") auto
  ultimately have "trim s = s" by (simp add: trim_def)
  then show ?thesis
    by (simp add: normalizedText_def 1 2 3 4 5 6 7 8 9 10 11 12 13)
qed

lemma ex_excerpt4:
  "excerpt_of (replicate 181 (cu CHR ''a'')) = replicate 180 (cu CHR ''a'') @ js ''...''"
proof -
  have "list_all plain (replicate 181 (cu CHR ''a''))"
    by (simp add: list_all_iff plain_def is_space_def is_digit_def js_def cu_def)
  then have "normalizedText (replicate 181 (cu CHR ''a'')) = replicate 181 (cu CHR ''a'')"
    by (rule normalizedText_plain)
  then show ?thesis by (simp add: excerpt_of_def)
qed

section \<open>src/db/semantic-search: semanticSearch\<close>

subsection \<open>Facts about the grouping loop\<close>

lemma entry_ok_mono: "entry_ok rows p \<Longrightarrow> set rows \<subseteq> set rows' \<Longrightarrow> entry_ok rows' p"
  unfolding entry_ok_def by blast

lemma set_update_subset: "set (AList.update k v al) \<subseteq> insert (k, v) (set al)"
  by (induction al) auto

lemma group_rows_total:
  "list_all (\<lambda>h. hit_rawMarkdown h \<noteq> None) rows \<Longrightarrow> \<exists>m'. group_rows rows m = Inr m'"
  by (induction rows arbitrary: m) (auto split: option.splits)

lemma group_rows_keys:
  "group_rows rows m = Inr m' \<Longrightarrow> fst ` set m' = fst ` set m \<union> hit_id ` set rows"
proof (induction rows arbitrary: m)
  case Nil
  then show ?case by simp
next
  case (Cons row rows)
  show ?case
  proof (cases "case map_of m (hit_id row) of None \<Rightarrow> True | Some existing \<Rightarrow> hit_similarity row > similarity existing")
    case True
    with Cons.prems obtain md where md: "hit_rawMarkdown row = Some md"
      and g: "group_rows rows (AList.update (hit_id row) (mk_result row md) m) = Inr m'"
      by (auto split: option.splits)
    from Cons.IH[OF g] show ?thesis by (auto simp: AList.dom_update)
  next
    case False
    then have "hit_id row \<in> fst ` set m"
      by (auto split: option.splits dest: map_of_SomeD intro: rev_image_eqI)
    moreover from False Cons.prems have "group_rows rows m = Inr m'" by (auto split: option.splits)
    ultimately show ?thesis using Cons.IH by auto
  qed
qed

lemma group_rows_distinct:
  "group_rows rows m = Inr m' \<Longrightarrow> distinct (map fst m) \<Longrightarrow> distinct (map fst m')"
  by (induction rows arbitrary: m) (auto split: option.splits if_splits simp: AList.distinct_update)

lemma group_rows_entries:
  "group_rows rows m = Inr m' \<Longrightarrow> p \<in> set m' \<Longrightarrow> p \<in> set m \<or> entry_ok rows p"
proof (induction rows arbitrary: m)
  case Nil
  then show ?case by simp
next
  case (Cons row rows)
  show ?case
  proof (cases "case map_of m (hit_id row) of None \<Rightarrow> True | Some existing \<Rightarrow> hit_similarity row > similarity existing")
    case True
    with Cons.prems obtain md where md: "hit_rawMarkdown row = Some md"
      and g: "group_rows rows (AList.update (hit_id row) (mk_result row md) m) = Inr m'"
      by (auto split: option.splits)
    from Cons.IH[OF g Cons.prems(2)]
    have "p \<in> set (AList.update (hit_id row) (mk_result row md) m) \<or> entry_ok rows p" .
    then show ?thesis
    proof
      assume "p \<in> set (AList.update (hit_id row) (mk_result row md) m)"
      with set_update_subset have "p = (hit_id row, mk_result row md) \<or> p \<in> set m" by fastforce
      then show ?thesis using md by (auto simp: entry_ok_def)
    next
      assume "entry_ok rows p"
      then show ?thesis by (auto intro: entry_ok_mono)
    qed
  next
    case False
    with Cons.prems have "group_rows rows m = Inr m'" by (auto split: option.splits)
    from Cons.IH[OF this Cons.prems(2)] show ?thesis by (auto intro: entry_ok_mono)
  qed
qed

text \<open>The similarity stored for a key never falls, and bounds every row seen for the key.\<close>

lemma group_rows_bound:
  "group_rows rows m = Inr m' \<Longrightarrow> distinct (map fst m) \<Longrightarrow> map_of m' k = Some e \<Longrightarrow>
     (\<forall>e0. map_of m k = Some e0 \<longrightarrow> similarity e0 \<le> similarity e) \<and>
     (\<forall>h\<in>set rows. hit_id h = k \<longrightarrow> hit_similarity h \<le> similarity e)"
proof (induction rows arbitrary: m)
  case Nil
  then show ?case by simp
next
  case (Cons row rows)
  show ?case
  proof (cases "case map_of m (hit_id row) of None \<Rightarrow> True | Some existing \<Rightarrow> hit_similarity row > similarity existing")
    case True
    with Cons.prems obtain md where md: "hit_rawMarkdown row = Some md"
      and g: "group_rows rows (AList.update (hit_id row) (mk_result row md) m) = Inr m'"
      by (auto split: option.splits)
    let ?m1 = "AList.update (hit_id row) (mk_result row md) m"
    have d1: "distinct (map fst ?m1)" using Cons.prems(2) by (simp add: AList.distinct_update)
    from Cons.IH[OF g d1 Cons.prems(3)]
    have ih: "(\<forall>e0. map_of ?m1 k = Some e0 \<longrightarrow> similarity e0 \<le> similarity e)"
      "(\<forall>h\<in>set rows. hit_id h = k \<longrightarrow> hit_similarity h \<le> similarity e)" by auto
    have m1: "map_of ?m1 = (map_of m)(hit_id row \<mapsto> mk_result row md)"
      by (rule AList.update_conv')
    show ?thesis
    proof (cases "hit_id row = k")
      case k: True
      from ih(1) m1 k have b: "hit_similarity row \<le> similarity e" by (simp add: mk_result_def)
      moreover have "\<forall>e0. map_of m k = Some e0 \<longrightarrow> similarity e0 \<le> similarity e"
        using True k b by (auto split: option.splits)
      ultimately show ?thesis using ih(2) by auto
    next
      case k: False
      with ih(1) m1 have "\<forall>e0. map_of m k = Some e0 \<longrightarrow> similarity e0 \<le> similarity e" by simp
      then show ?thesis using ih(2) k by auto
    qed
  next
    case False
    with Cons.prems have g: "group_rows rows m = Inr m'" by (auto split: option.splits)
    from Cons.IH[OF g Cons.prems(2,3)]
    have ih: "(\<forall>e0. map_of m k = Some e0 \<longrightarrow> similarity e0 \<le> similarity e)"
      "(\<forall>h\<in>set rows. hit_id h = k \<longrightarrow> hit_similarity h \<le> similarity e)" by auto
    from False obtain ex where ex: "map_of m (hit_id row) = Some ex" "\<not> hit_similarity row > similarity ex"
      by (auto split: option.splits)
    then have "hit_id row = k \<Longrightarrow> hit_similarity row \<le> similarity e" using ih(1) by force
    then show ?thesis using ih by auto
  qed
qed

lemma distinct_map_sort_key:
  "distinct (map f (sort_key g xs)) = distinct (map f xs)"
  by (simp add: distinct_map)

lemma semanticSearch_results:
  assumes "length q = D"
    and "store q (case limit of None \<Rightarrow> 10 | Some l \<Rightarrow> l) = Inr hits"
    and "\<forall>h\<in>set hits. hit_rawMarkdown h \<noteq> None"
  shows "\<exists>rs. semanticSearch D store calls q limit = (Inr rs, Suc calls)
      \<and> distinct (map id' rs)
      \<and> sorted_wrt (\<lambda>a b. similarity a \<ge> similarity b) rs
      \<and> set (map id' rs) = set (map hit_id hits)
      \<and> (\<forall>r\<in>set rs. \<exists>h md. h \<in> set hits \<and> hit_rawMarkdown h = Some md \<and> r = mk_result h md)
      \<and> (\<forall>r\<in>set rs. \<forall>h\<in>set hits. hit_id h = id' r \<longrightarrow> hit_similarity h \<le> similarity r)"
proof -
  from assms(3) have "list_all (\<lambda>h. hit_rawMarkdown h \<noteq> None) hits" by (simp add: list_all_iff)
  then obtain m where m: "group_rows hits [] = Inr m" using group_rows_total by blast
  let ?rs = "sort_key (\<lambda>r. - similarity r) (map snd m)"
  have run: "semanticSearch D store calls q limit = (Inr ?rs, Suc calls)"
    using assms(1,2) m by (simp add: semanticSearch_def)
  have dm: "distinct (map fst m)" using group_rows_distinct[OF m] by simp
  have ent: "entry_ok hits p" if "p \<in> set m" for p using group_rows_entries[OF m that] by simp
  have ids: "map id' (map snd m) = map fst m"
  proof -
    have "id' (snd p) = fst p" if "p \<in> set m" for p
      using ent[OF that] by (auto simp: entry_ok_def mk_result_def)
    then show ?thesis by simp
  qed
  have 1: "distinct (map id' ?rs)" using dm ids by (simp only: distinct_map_sort_key)
  have "sorted (map (\<lambda>r. - similarity r) ?rs)" by (rule sorted_sort_key)
  then have 2: "sorted_wrt (\<lambda>a b. similarity a \<ge> similarity b) ?rs"
    by (simp add: sorted_map)
  have "set (map id' ?rs) = set (map id' (map snd m))" by (simp del: map_map)
  also have "\<dots> = fst ` set m" using ids by (simp only: set_map)
  also have "\<dots> = hit_id ` set hits" using group_rows_keys[OF m] by simp
  finally have 3: "set (map id' ?rs) = set (map hit_id hits)" by simp
  have 4: "\<forall>r\<in>set ?rs. \<exists>h md. h \<in> set hits \<and> hit_rawMarkdown h = Some md \<and> r = mk_result h md"
  proof
    fix r assume "r \<in> set ?rs"
    then obtain p where p: "p \<in> set m" "r = snd p" by auto
    from ent[OF p(1)] p(2) show "\<exists>h md. h \<in> set hits \<and> hit_rawMarkdown h = Some md \<and> r = mk_result h md"
      by (auto simp: entry_ok_def)
  qed
  have 5: "\<forall>r\<in>set ?rs. \<forall>h\<in>set hits. hit_id h = id' r \<longrightarrow> hit_similarity h \<le> similarity r"
  proof (intro ballI impI)
    fix r h assume r: "r \<in> set ?rs" and h: "h \<in> set hits" "hit_id h = id' r"
    from r obtain p where p: "p \<in> set m" "r = snd p" by auto
    have "id' r = fst p" using ent[OF p(1)] p(2) by (auto simp: entry_ok_def mk_result_def)
    moreover have "(fst p, snd p) \<in> set m" using p(1) by simp
    ultimately have "map_of m (id' r) = Some r" using p(2) map_of_is_SomeI[OF dm] by simp
    from group_rows_bound[OF m _ this] h show "hit_similarity h \<le> similarity r" by simp
  qed
  from run 1 2 3 4 5 show ?thesis by blast
qed

subsection \<open>C1: one entry per document, best chunk, falling similarity\<close>

text \<open>
  C1. For every query vector of the right dimension and every answer of the store (rows
  whose raw content is a string, as their type says), \<open>semanticSearch\<close> returns a list
  with at most one entry per document identifier, exactly the identifiers of the answer,
  sorted by falling similarity. Each entry is made from one row of the answer for its
  document, its similarity is 1 minus that row's cosine distance, and no row of the answer
  for the same document has a higher similarity.
\<close>

theorem semanticSearch_dedup_sorted:
  assumes "length q = D"
    and "store q (case limit of None \<Rightarrow> 10 | Some l \<Rightarrow> l) = Inr hits"
    and "\<forall>h\<in>set hits. hit_rawMarkdown h \<noteq> None"
  shows "\<exists>rs. semanticSearch D store calls q limit = (Inr rs, Suc calls)
      \<and> distinct (map id' rs)
      \<and> sorted_wrt (\<lambda>a b. similarity a \<ge> similarity b) rs
      \<and> set (map id' rs) = set (map hit_id hits)
      \<and> (\<forall>r\<in>set rs. \<exists>h\<in>set hits. hit_id h = id' r \<and> similarity r = 1 - hit_distance h
              \<and> title r = hit_title h \<and> slug r = hit_slug h \<and> createdAt r = hit_createdAt h)
      \<and> (\<forall>r\<in>set rs. \<forall>h\<in>set hits. hit_id h = id' r \<longrightarrow> 1 - hit_distance h \<le> similarity r)"
proof -
  from semanticSearch_results[of q D store limit hits calls] assms obtain rs where
    run: "semanticSearch D store calls q limit = (Inr rs, Suc calls)"
    and d: "distinct (map id' rs)"
    and srt: "sorted_wrt (\<lambda>a b. similarity a \<ge> similarity b) rs"
    and ids: "set (map id' rs) = set (map hit_id hits)"
    and ent: "\<forall>r\<in>set rs. \<exists>h md. h \<in> set hits \<and> hit_rawMarkdown h = Some md \<and> r = mk_result h md"
    and bnd: "\<forall>r\<in>set rs. \<forall>h\<in>set hits. hit_id h = id' r \<longrightarrow> hit_similarity h \<le> similarity r"
    by blast
  have "\<forall>r\<in>set rs. \<exists>h\<in>set hits. hit_id h = id' r \<and> similarity r = 1 - hit_distance h
              \<and> title r = hit_title h \<and> slug r = hit_slug h \<and> createdAt r = hit_createdAt h"
  proof
    fix r assume "r \<in> set rs"
    with ent obtain h md where "h \<in> set hits" "r = mk_result h md" by blast
    then show "\<exists>h\<in>set hits. hit_id h = id' r \<and> similarity r = 1 - hit_distance h
              \<and> title r = hit_title h \<and> slug r = hit_slug h \<and> createdAt r = hit_createdAt h"
      by (auto simp: mk_result_def hit_similarity_def)
  qed
  moreover have "\<forall>r\<in>set rs. \<forall>h\<in>set hits. hit_id h = id' r \<longrightarrow> 1 - hit_distance h \<le> similarity r"
    using bnd by (simp add: hit_similarity_def)
  ultimately show ?thesis using run d srt ids by blast
qed

theorem semanticSearch_dedup_sorted_witness:
  "semanticSearch 2 ex_store 0 [1, 0] None =
     (Inr [\<lparr> id' = ''b'', title = ''B'', slug = ''b-1'', excerpt = [], similarity = 9/10,
              createdAt = 2 \<rparr>,
           \<lparr> id' = ''a'', title = ''A'', slug = ''a-1'', excerpt = js ''A bold'',
              similarity = 3/4, createdAt = 1 \<rparr>], 1)
   \<and> (\<exists>rs. semanticSearch 2 ex_store 0 [1, 0] None = (Inr rs, 1)
         \<and> distinct (map id' rs)
         \<and> sorted_wrt (\<lambda>a b. similarity a \<ge> similarity b) rs
         \<and> set (map id' rs) = {''a'', ''b''})"
proof -
  have g: "semanticSearch 2 ex_store 0 [1, 0] None =
     (Inr [\<lparr> id' = ''b'', title = ''B'', slug = ''b-1'', excerpt = [], similarity = 9/10,
              createdAt = 2 \<rparr>,
           \<lparr> id' = ''a'', title = ''A'', slug = ''a-1'', excerpt = js ''A bold'',
              similarity = 3/4, createdAt = 1 \<rparr>], 1)"
    by (simp add: semanticSearch_def ex_store_def ex_hits_def mk_result_def hit_similarity_def
        ex_excerpt1 ex_excerpt2)
  have h1: "length [1, 0 :: rat] = 2" by simp
  have h2: "ex_store [1, 0] (case None of None \<Rightarrow> 10 | Some l \<Rightarrow> l) = Inr ex_hits"
    by (simp add: ex_store_def ex_hits_def)
  have h3: "\<forall>h\<in>set ex_hits. hit_rawMarkdown h \<noteq> None" by (simp add: ex_hits_def)
  from semanticSearch_dedup_sorted [of "[1, 0]" 2 ex_store None ex_hits 0, OF h1 h2 h3]
  obtain rs where r: "semanticSearch 2 ex_store 0 [1, 0] None = (Inr rs, Suc 0)
      \<and> distinct (map id' rs)
      \<and> sorted_wrt (\<lambda>a b. similarity a \<ge> similarity b) rs
      \<and> set (map id' rs) = set (map hit_id ex_hits)
      \<and> (\<forall>r\<in>set rs. \<exists>h\<in>set ex_hits. hit_id h = id' r \<and> similarity r = 1 - hit_distance h
              \<and> title r = hit_title h \<and> slug r = hit_slug h \<and> createdAt r = hit_createdAt h)
      \<and> (\<forall>r\<in>set rs. \<forall>h\<in>set ex_hits. hit_id h = id' r \<longrightarrow> 1 - hit_distance h \<le> similarity r)" ..
  have "set (map hit_id ex_hits) = {''a'', ''b''}" by (simp add: ex_hits_def insert_commute)
  with r have "\<exists>rs. semanticSearch 2 ex_store 0 [1, 0] None = (Inr rs, 1)
         \<and> distinct (map id' rs)
         \<and> sorted_wrt (\<lambda>a b. similarity a \<ge> similarity b) rs
         \<and> set (map id' rs) = {''a'', ''b''}"
    by (intro exI[of _ rs]) simp
  with g show ?thesis by (rule conjI)
qed

subsection \<open>C3: the dimension check comes before the store\<close>

text \<open>
  C3. For every query vector whose length differs from the embedding dimension \<open>D\<close>,
  \<open>semanticSearch\<close> fails with the dimension error (expected \<open>D\<close>, received the length)
  and the count of store queries is what it was: the store is not asked.
\<close>

theorem semanticSearch_dimension_mismatch:
  "length q \<noteq> D \<Longrightarrow>
     semanticSearch D store calls q limit = (Inl (DimensionMismatch D (length q)), calls)"
  by (simp add: semanticSearch_def)

theorem semanticSearch_dimension_mismatch_witness:
  "semanticSearch 384 ex_store 0 [1, 0] None = (Inl (DimensionMismatch 384 2), 0)"
  using semanticSearch_dimension_mismatch [of "[1, 0]" 384 ex_store 0 None]
  by simp

subsection \<open>C7: the excerpt of a retained document\<close>

text \<open>
  C7, as the code has it. For every answer of the store whose rows carry a string as raw
  content, \<open>semanticSearch\<close> returns, and the excerpt of each entry is the normalised text
  of the raw content of a row of its document, cut to 180 code units, with three dots
  appended when the text was longer (so at most 183 code units). The normalised text has
  its white space collapsed: every white-space code unit is one SP between two other code
  units. An empty raw content gives an empty excerpt. What the replacements strip is
  shown below on the text of the specification's example.

  The claim also promises an empty excerpt for a missing raw content. The code calls
  \<open>replace\<close> on the field without a test: on a row whose raw content is null the call
  fails with a TypeError.
\<close>

theorem semanticSearch_excerpt:
  assumes "length q = D"
    and "store q (case limit of None \<Rightarrow> 10 | Some l \<Rightarrow> l) = Inr hits"
    and "\<forall>h\<in>set hits. hit_rawMarkdown h \<noteq> None"
  shows "\<exists>rs. semanticSearch D store calls q limit = (Inr rs, Suc calls)
      \<and> (\<forall>r\<in>set rs. \<exists>h\<in>set hits. \<exists>md. hit_id h = id' r \<and> hit_rawMarkdown h = Some md
            \<and> excerpt r = take 180 (normalizedText md)
                             @ (if length (normalizedText md) > 180 then js ''...'' else [])
            \<and> single_spaced (normalizedText md) \<and> trimmed (normalizedText md)
            \<and> length (excerpt r) \<le> 183
            \<and> (if md = [] then excerpt r = [] else True))"
proof -
  from semanticSearch_results[of q D store limit hits calls] assms obtain rs where
    run: "semanticSearch D store calls q limit = (Inr rs, Suc calls)"
    and ent: "\<forall>r\<in>set rs. \<exists>h md. h \<in> set hits \<and> hit_rawMarkdown h = Some md \<and> r = mk_result h md"
    by blast
  have "\<forall>r\<in>set rs. \<exists>h\<in>set hits. \<exists>md. hit_id h = id' r \<and> hit_rawMarkdown h = Some md
            \<and> excerpt r = take 180 (normalizedText md)
                             @ (if length (normalizedText md) > 180 then js ''...'' else [])
            \<and> single_spaced (normalizedText md) \<and> trimmed (normalizedText md)
            \<and> length (excerpt r) \<le> 183
            \<and> (if md = [] then excerpt r = [] else True)"
  proof
    fix r assume "r \<in> set rs"
    with ent obtain h md where h: "h \<in> set hits" "hit_rawMarkdown h = Some md" "r = mk_result h md"
      by blast
    have e: "excerpt r = excerpt_of md" using h(3) by (simp add: mk_result_def)
    have 1: "hit_id h = id' r" using h(3) by (simp add: mk_result_def)
    have 2: "excerpt r = take 180 (normalizedText md)
                             @ (if length (normalizedText md) > 180 then js ''...'' else [])"
      using e by (simp add: excerpt_of_def Let_def)
    have 3: "length (excerpt r) \<le> 183" using e excerpt_of_length by simp
    have 4: "if md = [] then excerpt r = [] else True" using e ex_excerpt2 by simp
    from h(1,2) 1 2 3 4 normalizedText_spaced[of md]
    show "\<exists>h\<in>set hits. \<exists>md. hit_id h = id' r \<and> hit_rawMarkdown h = Some md
            \<and> excerpt r = take 180 (normalizedText md)
                             @ (if length (normalizedText md) > 180 then js ''...'' else [])
            \<and> single_spaced (normalizedText md) \<and> trimmed (normalizedText md)
            \<and> length (excerpt r) \<le> 183
            \<and> (if md = [] then excerpt r = [] else True)"
      by blast
  qed
  with run show ?thesis by blast
qed

text \<open>The claim as stated fails on a row whose raw content is missing: the whole call
  fails.\<close>

theorem semanticSearch_missing_raw_counterexample:
  "semanticSearch 2 ex_store_null 0 [1, 0] None = (Inl TypeError, 1)"
  by (simp add: semanticSearch_def ex_store_null_def)

theorem semanticSearch_excerpt_witness:
  "(\<exists>rs. semanticSearch 2 ex_store 0 [1, 0] None = (Inr rs, 1)
         \<and> map excerpt rs = [[], js ''A bold''] \<and> list_all single_spaced (map excerpt rs))
   \<and> excerpt_of (js ''# Title'' @ [10, 10] @ js ''Some **bold** text with '' @ [96] @ js ''code''
               @ [96] @ js '' and a [link](url).'')
        = js ''Title Some bold text with and a link.''
   \<and> excerpt_of (replicate 181 (cu CHR ''a'')) = replicate 180 (cu CHR ''a'') @ js ''...''"
proof -
  have g: "semanticSearch 2 ex_store 0 [1, 0] None =
     (Inr [\<lparr> id' = ''b'', title = ''B'', slug = ''b-1'', excerpt = [], similarity = 9/10,
              createdAt = 2 \<rparr>,
           \<lparr> id' = ''a'', title = ''A'', slug = ''a-1'', excerpt = js ''A bold'',
              similarity = 3/4, createdAt = 1 \<rparr>], 1)"
    by (simp add: semanticSearch_def ex_store_def ex_hits_def mk_result_def hit_similarity_def
        ex_excerpt1 ex_excerpt2)
  have h1: "length [1, 0 :: rat] = 2" by simp
  have h2: "ex_store [1, 0] (case None of None \<Rightarrow> 10 | Some l \<Rightarrow> l) = Inr ex_hits"
    by (simp add: ex_store_def ex_hits_def)
  have h3: "\<forall>h\<in>set ex_hits. hit_rawMarkdown h \<noteq> None" by (simp add: ex_hits_def)
  from semanticSearch_excerpt [of "[1, 0]" 2 ex_store None ex_hits 0, OF h1 h2 h3]
  obtain rs where r: "semanticSearch 2 ex_store 0 [1, 0] None = (Inr rs, Suc 0)" by blast
  with g have "map excerpt rs = [[], js ''A bold'']" by simp
  moreover have "list_all single_spaced [[], js ''A bold'']"
    by (simp add: js_def cu_def is_space_def)
  ultimately have "\<exists>rs. semanticSearch 2 ex_store 0 [1, 0] None = (Inr rs, 1)
         \<and> map excerpt rs = [[], js ''A bold''] \<and> list_all single_spaced (map excerpt rs)"
    using r by (intro exI[of _ rs]) simp
  with ex_excerpt3 ex_excerpt4 show ?thesis by (intro conjI)
qed

section \<open>The embeddings worker\<close>

subsection \<open>Example data and evaluation\<close>

lemmas worker_defs = handle_message_def ensurePipeline_def load_pipeline_def run_load_def
  load_step_def fetch_layer_def chunk_layer_def done_layer_def cancel_layer_def
  progress_callback_def report_def report_total_def postProgress_def postResponse_def
  or_else_def default_model_def toPlainArray_def vector_of_def initial_worker_def Let_def
  percent_evals

lemma stub_load_v3:
  "ensurePipeline V3 stub_library ''Xenova/multilingual-e5-large'' ''wasm'' (Some ''r1'')
     initial_worker =
   (Inr stub_pipe,
    \<lparr> featureExtractionPipeline = Some stub_pipe,
      currentConfig = (Some ''Xenova/multilingual-e5-large'', Some ''wasm''),
      downloadTracker = [], globalFetch = NativeFetch,
      envFetch = Some (Interceptor (Some ''r1'') NativeFetch),
      trace = [PipelineCall ''Xenova/multilingual-e5-large'' ''wasm'',
               Posted (Progress ''r1'' (Loading ModeloListo (Some 100)))] \<rparr>)"
  by (simp add: worker_defs stub_library_def)

subsection \<open>C2: embed computes the vectors in input order\<close>

lemma embed_loop_ok:
  "map pipe ts = map Inr outs \<Longrightarrow>
   embed_loop pipe requestId n i ts acc w =
     (Inr (acc @ map (toPlainArray \<circ> vector_of) outs),
      w\<lparr>trace := trace w @ running_effects requestId n i ts\<rparr>)"
proof (induction ts arbitrary: i acc w outs)
  case Nil
  then show ?case by simp
next
  case (Cons t ts)
  then obtain out outs' where o: "outs = out # outs'" "pipe t = Inr out" "map pipe ts = map Inr outs'"
    by (cases outs) auto
  show ?case
    using Cons.IH[OF o(3)] o(1,2) by (simp add: postProgress_def)
qed

text \<open>The percentage of a progress message is the code's, rounding included: text 23 of
  40 is announced with 57 percent.\<close>

lemma embed_loop_23_of_40:
  "embed_loop stub_pipe ''r1'' 40 22 [JText (js ''adios'')] [] initial_worker =
     (Inl (Error ''unsupported input''),
      initial_worker\<lparr>trace := [Posted (Progress ''r1'' (Running 22 40 57)),
                               PipeCall (JText (js ''adios''))]\<rparr>)"
  by (simp add: postProgress_def initial_worker_def stub_pipe_def js_def cu_def percent_23_of_40)

text \<open>
  C2, as the code has it. For every embed request with a non-empty array of texts, once
  the pipeline is there (\<open>ensurePipeline\<close> returns it) and the pipeline answers every text,
  the worker goes through the texts in input order: for each text it posts a progress
  message (phase running, index, total, and the percentage
  \<open>Math.round(((index + 1) / total) * 100)\<close> in double arithmetic) and then calls the
  pipeline on it; at the end it posts one successful response with the plain arrays of the
  outputs, in input order, and the active model and device.

  The progress message of a text is posted before the pipeline is called on it, not after
  the text is completed.
\<close>

theorem embed_in_order:
  assumes "req_type rq = ''embed''"
    and "p_texts (req_payload rq) = JArray texts" and "texts \<noteq> []"
    and "ensurePipeline v lib
           (or_else (p_modelId (req_payload rq)) (or_else (fst (currentConfig w)) (default_model v)))
           (or_else (p_device (req_payload rq)) (or_else (snd (currentConfig w)) ''wasm''))
           (Some (req_id rq)) w = (Inr pipe, w1)"
    and "map pipe texts = map Inr outs"
  shows "handle_message v lib rq w =
     w1\<lparr>trace := trace w1 @ running_effects (req_id rq) (length texts) 0 texts
              @ [Posted (ResponseOk (req_id rq)
                   (Embeddings (fst (currentConfig w1)) (snd (currentConfig w1))
                      (map (toPlainArray \<circ> vector_of) outs)))]\<rparr>"
  using assms
  by (simp add: handle_message_def embed_loop_ok postResponse_def Let_def)

theorem embed_in_order_witness:
  "trace (handle_message V3 stub_library
            (embed_request (JArray [JText (js ''hola''), JText (js ''mundo'')])) initial_worker) =
     [PipelineCall ''Xenova/multilingual-e5-large'' ''wasm'',
      Posted (Progress ''r1'' (Loading ModeloListo (Some 100))),
      Posted (Progress ''r1'' (Running 0 2 50)),
      PipeCall (JText (js ''hola'')),
      Posted (Progress ''r1'' (Running 1 2 100)),
      PipeCall (JText (js ''mundo'')),
      Posted (ResponseOk ''r1''
        (Embeddings (Some ''Xenova/multilingual-e5-large'') (Some ''wasm'')
           [VArray [1, 0], VArray [0, 1]]))]"
proof -
  let ?texts = "[JText (js ''hola''), JText (js ''mundo'')]"
  let ?rq = "embed_request (JArray ?texts)"
  have 1: "req_type ?rq = ''embed''" by (simp add: embed_request_def)
  have 2: "p_texts (req_payload ?rq) = JArray ?texts" by (simp add: embed_request_def)
  have 3: "?texts \<noteq> []" by simp
  have 4: "ensurePipeline V3 stub_library
           (or_else (p_modelId (req_payload ?rq))
              (or_else (fst (currentConfig initial_worker)) (default_model V3)))
           (or_else (p_device (req_payload ?rq))
              (or_else (snd (currentConfig initial_worker)) ''wasm''))
           (Some (req_id ?rq)) initial_worker =
         (Inr stub_pipe,
          \<lparr> featureExtractionPipeline = Some stub_pipe,
            currentConfig = (Some ''Xenova/multilingual-e5-large'', Some ''wasm''),
            downloadTracker = [], globalFetch = NativeFetch,
            envFetch = Some (Interceptor (Some ''r1'') NativeFetch),
            trace = [PipelineCall ''Xenova/multilingual-e5-large'' ''wasm'',
                     Posted (Progress ''r1'' (Loading ModeloListo (Some 100)))] \<rparr>)"
    using stub_load_v3
    by (simp add: embed_request_def or_else_def default_model_def initial_worker_def)
  have 5: "map stub_pipe ?texts = map Inr [OutArray [1, 0], OutTensor (VTyped [0, 1])]"
    by (simp add: stub_pipe_def js_def cu_def)
  show ?thesis
    using embed_in_order [OF 1 2 3 4 5]
    by (simp add: embed_request_def toPlainArray_def vector_of_def percent_evals)
qed

text \<open>A text the pipeline fails on: the progress message for it, with 100 percent, is
  posted all the same, and no text was completed.\<close>

theorem embed_progress_counterexample:
  "trace (handle_message V3 stub_library (embed_request (JArray [JText (js ''adios'')]))
            initial_worker) =
     [PipelineCall ''Xenova/multilingual-e5-large'' ''wasm'',
      Posted (Progress ''r1'' (Loading ModeloListo (Some 100))),
      Posted (Progress ''r1'' (Running 0 1 100)),
      PipeCall (JText (js ''adios'')),
      Posted (ResponseError ''r1'' (Thrown (Error ''unsupported input'')))]"
  by (simp add: worker_defs stub_library_def embed_request_def stub_pipe_def js_def cu_def)

subsection \<open>C6: the input check of embed\<close>

text \<open>
  C6, as the code has it. For every embed request whose \<open>texts\<close> is not an array or is an
  empty array, the worker posts the failed response of the input check and does nothing
  else: no model load, no call of the pipeline, no change of its state. The elements of a
  non-empty array are not looked at.
\<close>

theorem embed_invalid_input:
  assumes "req_type rq = ''embed''"
    and "p_texts (req_payload rq) = JArray [] \<or> (\<forall>ts. p_texts (req_payload rq) \<noteq> JArray ts)"
  shows "handle_message v lib rq w =
     w\<lparr>trace := trace w @ [Posted (ResponseError (req_id rq) InvalidInput)]\<rparr>"
  using assms
  by (cases "p_texts (req_payload rq)") (auto simp: handle_message_def postResponse_def Let_def)

theorem embed_invalid_input_witness:
  "handle_message V2 stub_library (embed_request (JArray [])) initial_worker =
     initial_worker\<lparr>trace := [Posted (ResponseError ''r1'' InvalidInput)]\<rparr>
   \<and> handle_message V2 stub_library (embed_request (JText (js ''hola''))) initial_worker =
     initial_worker\<lparr>trace := [Posted (ResponseError ''r1'' InvalidInput)]\<rparr>"
  using embed_invalid_input [of "embed_request (JArray [])" V2 stub_library initial_worker]
    embed_invalid_input [of "embed_request (JText (js ''hola''))" V2 stub_library initial_worker]
  by (simp add: embed_request_def initial_worker_def)

text \<open>An array of values that are not strings passes the check: the model is loaded and
  the pipeline is called before the request fails, and it fails with the error of the
  pipeline.\<close>

theorem embed_non_string_counterexample:
  "trace (handle_message V2 stub_library (embed_request (JArray [JNumber 42])) initial_worker) =
     [Posted (Progress ''r1'' (Loading IniciandoDescarga (Some 0))),
      PipelineCall ''Xenova/paraphrase-multilingual-MiniLM-L12-v2'' ''wasm'',
      Posted (Progress ''r1'' (Loading ModeloListo (Some 100))),
      Posted (Progress ''r1'' (Running 0 1 100)),
      PipeCall (JNumber 42),
      Posted (ResponseError ''r1'' (Thrown (Error ''unsupported input'')))]"
  by (simp add: worker_defs stub_library_def embed_request_def stub_pipe_def)

subsection \<open>What a load leaves alone\<close>

lemma same_fetch_refl [simp]: "same_fetch w w"
  by (simp add: same_fetch_def)

lemma same_fetch_trans: "same_fetch w w1 \<Longrightarrow> same_fetch w1 w2 \<Longrightarrow> same_fetch w w2"
  by (simp add: same_fetch_def)

lemma same_fetch_postProgress [simp]: "same_fetch w (postProgress r p w)"
  by (simp add: same_fetch_def postProgress_def)

lemma same_fetch_report [simp]: "same_fetch w (report rep p w)"
  by (cases rep) (simp_all add: report_def)

lemma same_fetch_report_total [simp]: "same_fetch w (report_total r w)"
  by (simp add: report_total_def split: option.splits)

lemma same_fetch_fetch_layer: "same_fetch w (fst (fetch_layer v url cl b rep w))"
  by (cases v; cases rep) (auto simp: fetch_layer_def Let_def same_fetch_def postProgress_def)

lemma same_fetch_fetch_layers: "same_fetch w (fst (fetch_layers v url cl b reps w))"
proof (induction reps arbitrary: w)
  case Nil
  then show ?case by simp
next
  case (Cons rep reps)
  have "same_fetch w (fst (fetch_layer v url cl b rep w))" by (rule same_fetch_fetch_layer)
  moreover have "same_fetch (fst (fetch_layer v url cl b rep w))
      (fst (fetch_layers v url cl b reps (fst (fetch_layer v url cl b rep w))))"
    by (rule Cons.IH)
  ultimately show ?case
    by (auto simp: split_beta Let_def intro: same_fetch_trans)
qed

lemma same_fetch_chunk_layer: "same_fetch w (fst (chunk_layer v n l w))"
  by (cases v) (auto simp: chunk_layer_def Let_def same_fetch_def postProgress_def report_total_def
      split: option.splits)

lemma same_fetch_done_layer: "same_fetch w (fst (done_layer v l w))"
  by (cases v) (auto simp: done_layer_def Let_def same_fetch_def postProgress_def report_total_def
      split: option.splits)

lemma same_fetch_cancel_layer: "same_fetch w (fst (cancel_layer v l w))"
  by (cases v) (auto simp: cancel_layer_def same_fetch_def)

lemma same_fetch_through_layers:
  assumes "\<And>l w. same_fetch w (fst (f l w))"
  shows "same_fetch w (fst (through_layers f ls w))"
proof (induction ls arbitrary: w)
  case Nil
  then show ?case by simp
next
  case (Cons l ls)
  have "same_fetch w (fst (f l w))" by (rule assms)
  moreover have "same_fetch (fst (f l w)) (fst (through_layers f ls (fst (f l w))))"
    by (rule Cons.IH)
  ultimately show ?case
    by (auto simp: split_beta Let_def intro: same_fetch_trans)
qed

lemma same_fetch_progress_callback: "same_fetch w (progress_callback v rep st pr fl w)"
  by (cases v) (auto simp: progress_callback_def)

lemma same_fetch_load_step: "same_fetch w (fst (load_step v rep ev (w, ss)))"
proof (cases ev)
  case (Fetch url cl b)
  then show ?thesis
    using same_fetch_fetch_layers by (simp add: load_step_def Let_def split_beta)
next
  case (Chunk i n)
  then show ?thesis
    using same_fetch_through_layers[of "chunk_layer v n", OF same_fetch_chunk_layer]
    by (simp add: load_step_def Let_def split_beta)
next
  case (Done i)
  then show ?thesis
    using same_fetch_through_layers[of "done_layer v", OF same_fetch_done_layer]
    by (simp add: load_step_def Let_def split_beta)
next
  case (Cancel i)
  then show ?thesis
    using same_fetch_through_layers[of "cancel_layer v", OF same_fetch_cancel_layer]
    by (simp add: load_step_def Let_def split_beta)
next
  case (NativeProgress st pr fl)
  then show ?thesis
    using same_fetch_progress_callback by (simp add: load_step_def Let_def)
qed

lemma same_fetch_foldl:
  "same_fetch w (fst (foldl (\<lambda>st ev. load_step v rep ev st) (w, ss) evs))"
proof (induction evs arbitrary: w ss)
  case Nil
  then show ?case by simp
next
  case (Cons ev evs)
  obtain w1 ss1 where s: "load_step v rep ev (w, ss) = (w1, ss1)" by (cases "load_step v rep ev (w, ss)")
  have "same_fetch w w1" using same_fetch_load_step[of w v rep ev ss] s by simp
  moreover have "same_fetch w1 (fst (foldl (\<lambda>st ev. load_step v rep ev st) (w1, ss1) evs))"
    by (rule Cons.IH)
  ultimately show ?case using s by (auto intro: same_fetch_trans)
qed

lemma same_fetch_run_load: "same_fetch w (run_load v rep evs w)"
  by (simp add: run_load_def same_fetch_foldl)

subsection \<open>C4: the fetch wrapper after a load\<close>

text \<open>Version 2 puts back the fetch it found, whether the load succeeds or throws.\<close>

lemma ensurePipeline_v2_restores_fetch:
  "globalFetch (snd (ensurePipeline V2 lib model dev rep w)) = globalFetch w
   \<and> envFetch (snd (ensurePipeline V2 lib model dev rep w)) = envFetch w"
proof -
  let ?rd = "or_else (Some dev) ''wasm''"
  let ?w4 = "(report rep (Loading IniciandoDescarga (Some 0))
               (w\<lparr>downloadTracker := [], globalFetch := Interceptor rep (globalFetch w)\<rparr>))
             \<lparr>trace := trace (report rep (Loading IniciandoDescarga (Some 0))
               (w\<lparr>downloadTracker := [], globalFetch := Interceptor rep (globalFetch w)\<rparr>))
                 @ [PipelineCall model ?rd]\<rparr>"
  have e: "envFetch ?w4 = envFetch w"
    by (cases rep) (simp_all add: report_def postProgress_def)
  have "same_fetch ?w4 (run_load V2 rep (events (lib model ?rd)) ?w4)"
    by (rule same_fetch_run_load)
  with e have r: "envFetch (run_load V2 rep (events (lib model ?rd)) ?w4) = envFetch w"
    by (simp add: same_fetch_def)
  have l: "globalFetch (snd (load_pipeline V2 lib model dev rep w)) = globalFetch w
     \<and> envFetch (snd (load_pipeline V2 lib model dev rep w)) = envFetch w"
    using r by (cases rep; cases "outcome (lib model ?rd)")
      (simp_all add: load_pipeline_def Let_def report_def postProgress_def)
  then show ?thesis
    by (simp add: ensurePipeline_def split: option.splits)
qed

text \<open>Run one after the other, the two halves are the load.\<close>

lemma load_pipeline_v2_halves:
  "snd (load_pipeline V2 lib model dev rep w) =
     (let resolvedDevice = or_else (Some dev) ''wasm'';
          (originalFetch, w3) = begin_load_v2 rep w;
          w4 = w3\<lparr>trace := trace w3 @ [PipelineCall model resolvedDevice]\<rparr>
      in finish_load_v2 originalFetch model resolvedDevice rep
           (outcome (lib model resolvedDevice))
           (run_load V2 rep (events (lib model resolvedDevice)) w4))"
  by (cases "outcome (lib model (or_else (Some dev) ''wasm''))")
    (simp_all add: load_pipeline_def begin_load_v2_def finish_load_v2_def Let_def)

text \<open>
  Two loads that overlap: the second begins while the first awaits the library, the first
  is settled, then the second. The second found the wrapper of the first and puts it back:
  the wrapper of the first load stays installed.
\<close>

lemma overlapping_loads_v2_leave_interceptor:
  "globalFetch
     (finish_load_v2 (fst (begin_load_v2 repB (snd (begin_load_v2 repA w)))) modelB devB repB resB
        (finish_load_v2 (fst (begin_load_v2 repA w)) modelA devA repA resA
           (snd (begin_load_v2 repB (snd (begin_load_v2 repA w))))))
   = Interceptor repA (globalFetch w)"
proof -
  have g: "globalFetch (report rep p w') = globalFetch w'" for rep p w'
    by (cases rep) (simp_all add: report_def postProgress_def)
  show ?thesis
    by (cases resA; cases resB) (simp_all add: begin_load_v2_def finish_load_v2_def g)
qed

text \<open>
  C4. The claim: after every model load, successful or not, no fetch interception
  installed during the load survives. The worker of \<open>public/embeddings-worker.js\<close>
  (version 3) installs its wrapper in \<open>env.fetch\<close> and never puts the former value back.
  On a fresh worker \<open>env.fetch\<close> is unset; after a load it holds the wrapper of that
  load's request, whether the load succeeded or threw. After a second load with another
  model the wrapper of the second request stands around the wrapper of the first, and a
  fetch of the second load reports progress to the first request, which was answered
  long before.
\<close>

theorem ensurePipeline_v3_interceptor_stays:
  "envFetch initial_worker = None
   \<and> envFetch (snd (ensurePipeline V3 stub_library ''m'' ''wasm'' (Some ''r1'') initial_worker))
       = Some (Interceptor (Some ''r1'') NativeFetch)
   \<and> envFetch (snd (ensurePipeline V3 failing_library ''m'' ''wasm'' (Some ''r1'') initial_worker))
       = Some (Interceptor (Some ''r1'') NativeFetch)
   \<and> envFetch (handle_message V3 fetching_library (init_request ''r2'' ''m2'')
                 (handle_message V3 fetching_library (init_request ''r1'' ''m1'') initial_worker))
       = Some (Interceptor (Some ''r2'') (Interceptor (Some ''r1'') NativeFetch))
   \<and> trace (handle_message V3 fetching_library (init_request ''r2'' ''m2'')
               (handle_message V3 fetching_library (init_request ''r1'' ''m1'') initial_worker))
       = [Posted (Progress ''r1'' LoadingMessage),
          PipelineCall ''m1'' ''wasm'',
          Posted (Progress ''r1'' (Loading DescargandoModelo None)),
          Posted (Progress ''r1'' (Loading ModeloListo (Some 100))),
          Posted (ResponseOk ''r1'' (Ready (Some ''m1'', Some ''wasm''))),
          Posted (Progress ''r2'' LoadingMessage),
          PipelineCall ''m2'' ''wasm'',
          Posted (Progress ''r1'' (Loading DescargandoModelo None)),
          Posted (Progress ''r2'' (Loading DescargandoModelo None)),
          Posted (Progress ''r2'' (Loading ModeloListo (Some 100))),
          Posted (ResponseOk ''r2'' (Ready (Some ''m2'', Some ''wasm'')))]"
proof -
  have u: "isModelAsset V3 (js ''https://huggingface.co/m/config.json'')"
    by (simp add: isModelAsset_def ci_def js_def cu_def lower_def)
  show ?thesis
    by (simp add: worker_defs stub_library_def failing_library_def fetching_library_def
        init_request_def u)
qed

subsection \<open>C8: the percentages of a load\<close>

lemma reports_only_refl [simp]: "reports_only P w w"
  by (simp add: reports_only_def)

lemma reports_only_trans:
  "reports_only P w w1 \<Longrightarrow> reports_only P w1 w2 \<Longrightarrow> reports_only P w w2"
  unfolding reports_only_def by fastforce

lemma reports_only_tracker [simp]: "reports_only P w (w\<lparr>downloadTracker := t\<rparr>)"
  by (simp add: reports_only_def)

lemma reports_only_post:
  "P (Posted (Progress r q)) \<Longrightarrow> reports_only P w (postProgress r q w)"
  by (simp add: reports_only_def postProgress_def)

lemma reports_only_through_layers:
  assumes "\<And>l w. reports_only P w (fst (f l w))"
  shows "reports_only P w (fst (through_layers f ls w))"
proof (induction ls arbitrary: w)
  case Nil
  then show ?case by simp
next
  case (Cons l ls)
  have "reports_only P w (fst (f l w))" by (rule assms)
  moreover have "reports_only P (fst (f l w)) (fst (through_layers f ls (fst (f l w))))"
    by (rule Cons.IH)
  ultimately show ?case
    by (auto simp: split_beta Let_def intro: reports_only_trans)
qed

lemma reports_only_fetch_layers:
  assumes "\<And>rep w. reports_only P w (fst (fetch_layer v url cl b rep w))"
  shows "reports_only P w (fst (fetch_layers v url cl b reps w))"
proof (induction reps arbitrary: w)
  case Nil
  then show ?case by simp
next
  case (Cons rep reps)
  have "reports_only P w (fst (fetch_layer v url cl b rep w))" by (rule assms)
  moreover have "reports_only P (fst (fetch_layer v url cl b rep w))
      (fst (fetch_layers v url cl b reps (fst (fetch_layer v url cl b rep w))))"
    by (rule Cons.IH)
  ultimately show ?case
    by (auto simp: split_beta Let_def intro: reports_only_trans)
qed

lemma reports_only_foldl:
  assumes "\<And>ev w ss. reports_only P w (fst (load_step v rep ev (w, ss)))"
  shows "reports_only P w (fst (foldl (\<lambda>st ev. load_step v rep ev st) (w, ss) evs))"
proof (induction evs arbitrary: w ss)
  case Nil
  then show ?case by simp
next
  case (Cons ev evs)
  obtain w1 ss1 where s: "load_step v rep ev (w, ss) = (w1, ss1)"
    by (cases "load_step v rep ev (w, ss)")
  have "reports_only P w w1" using assms[of w ev ss] s by simp
  moreover have "reports_only P w1 (fst (foldl (\<lambda>st ev. load_step v rep ev st) (w1, ss1) evs))"
    by (rule Cons.IH)
  ultimately show ?case using s by (auto intro: reports_only_trans)
qed

text \<open>Version 2: what the wrapper posts is capped.\<close>

lemma calculateTotalProgress_le: "calculateTotalProgress t = Some q \<Longrightarrow> q \<le> 99"
  by (auto simp: calculateTotalProgress_def Let_def split: if_splits)

lemma reports_only_report_total: "reports_only capped_report w (report_total r w)"
  by (auto simp: report_total_def reports_only_def postProgress_def
      dest: calculateTotalProgress_le split: option.splits)

lemma reports_only_report_total_upd:
  "reports_only capped_report w (report_total r (w\<lparr>downloadTracker := t\<rparr>))"
  by (auto simp: report_total_def reports_only_def postProgress_def
      dest: calculateTotalProgress_le split: option.splits)

lemma reports_only_fetch_layer_v2:
  "reports_only capped_report w (fst (fetch_layer V2 url cl b rep w))"
  by (cases rep) (auto simp: fetch_layer_def Let_def reports_only_def postProgress_def)

lemma reports_only_chunk_layer_v2: "reports_only capped_report w (fst (chunk_layer V2 n l w))"
  by (simp add: chunk_layer_def Let_def reports_only_report_total_upd
      reports_only_report_total split: option.splits)

lemma reports_only_done_layer_v2: "reports_only capped_report w (fst (done_layer V2 l w))"
  by (simp add: done_layer_def Let_def reports_only_report_total_upd
      reports_only_report_total split: option.splits)

lemma reports_only_cancel_layer_v2: "reports_only capped_report w (fst (cancel_layer V2 l w))"
  by (simp add: cancel_layer_def)

text \<open>One event of a load of version 2 appends to the trace what \<open>event_reports\<close> says.\<close>

lemma load_step_v2_posts:
  "\<exists>seg. trace (fst (load_step V2 (Some r) ev (w, ss))) = trace w @ seg \<and> event_reports r ev seg"
proof (cases ev)
  case (Fetch url cl b)
  have "reports_only capped_report w (fst (load_step V2 (Some r) ev (w, ss)))"
    using reports_only_fetch_layers[of capped_report V2 url cl b, OF reports_only_fetch_layer_v2]
    by (simp add: Fetch load_step_def Let_def split_beta)
  then show ?thesis by (simp add: Fetch reports_only_def)
next
  case (Chunk i n)
  have "reports_only capped_report w (fst (load_step V2 (Some r) ev (w, ss)))"
    using reports_only_through_layers[of capped_report "chunk_layer V2 n", OF reports_only_chunk_layer_v2]
    by (simp add: Chunk load_step_def Let_def split_beta)
  then show ?thesis by (simp add: Chunk reports_only_def)
next
  case (Done i)
  have "reports_only capped_report w (fst (load_step V2 (Some r) ev (w, ss)))"
    using reports_only_through_layers[of capped_report "done_layer V2", OF reports_only_done_layer_v2]
    by (simp add: Done load_step_def Let_def split_beta)
  then show ?thesis by (simp add: Done reports_only_def)
next
  case (Cancel i)
  have "reports_only capped_report w (fst (load_step V2 (Some r) ev (w, ss)))"
    using reports_only_through_layers[of capped_report "cancel_layer V2", OF reports_only_cancel_layer_v2]
    by (simp add: Cancel load_step_def Let_def split_beta)
  then show ?thesis by (simp add: Cancel reports_only_def)
next
  case (NativeProgress st pr fl)
  then show ?thesis
    by (simp add: load_step_def progress_callback_def report_def postProgress_def
        native_posts_def)
qed

lemma run_load_v2_posts:
  "\<exists>segs. trace (fst (foldl (\<lambda>st ev. load_step V2 (Some r) ev st) (w, ss) evs))
             = trace w @ concat segs
         \<and> list_all2 (event_reports r) evs segs"
proof (induction evs arbitrary: w ss)
  case Nil
  then show ?case by simp
next
  case (Cons ev evs)
  obtain w1 ss1 where s: "load_step V2 (Some r) ev (w, ss) = (w1, ss1)"
    by (cases "load_step V2 (Some r) ev (w, ss)")
  from load_step_v2_posts[of r ev w ss] s
  obtain seg where seg: "trace w1 = trace w @ seg" "event_reports r ev seg" by auto
  from Cons.IH[of w1 ss1]
  obtain segs where segs:
    "trace (fst (foldl (\<lambda>st ev. load_step V2 (Some r) ev st) (w1, ss1) evs))
       = trace w1 @ concat segs"
    "list_all2 (event_reports r) evs segs" by auto
  have "trace (fst (foldl (\<lambda>st ev. load_step V2 (Some r) ev st) (w, ss) (ev # evs)))
          = trace w @ concat (seg # segs)
        \<and> list_all2 (event_reports r) (ev # evs) (seg # segs)"
    using s seg segs by simp
  then show ?case by blast
qed

lemma silent_segments:
  "list_all2 (event_reports r) evs segs \<Longrightarrow> list_all silent evs
     \<Longrightarrow> list_all capped_report (concat segs)"
proof (induction rule: list_all2_induct)
  case Nil
  then show ?case by simp
next
  case (Cons ev evs seg segs)
  have "list_all capped_report seg"
    using Cons.hyps(1) Cons.prems by (cases ev) (simp_all add: native_posts_def)
  with Cons show ?case by simp
qed

text \<open>Version 3: what the wrapper posts is capped, or the 100 at the end of a body.\<close>

lemma reports_only_fetch_layer_v3:
  "reports_only wrapper_report_v3 w (fst (fetch_layer V3 url cl b rep w))"
  by (cases rep) (auto simp: fetch_layer_def Let_def reports_only_def postProgress_def)

lemma reports_only_chunk_layer_v3:
  "reports_only wrapper_report_v3 w (fst (chunk_layer V3 n l w))"
  by (simp add: chunk_layer_def Let_def reports_only_post)

lemma reports_only_done_layer_v3:
  "reports_only wrapper_report_v3 w (fst (done_layer V3 l w))"
  by (simp add: done_layer_def reports_only_post)

lemma reports_only_cancel_layer_v3:
  "reports_only wrapper_report_v3 w (fst (cancel_layer V3 l w))"
  by (simp add: cancel_layer_def)

lemma reports_only_load_step_v3:
  "reports_only wrapper_report_v3 w (fst (load_step V3 rep ev (w, ss)))"
proof (cases ev)
  case (Fetch url cl b)
  then show ?thesis
    using reports_only_fetch_layers[of wrapper_report_v3 V3 url cl b, OF reports_only_fetch_layer_v3]
    by (simp add: load_step_def Let_def split_beta)
next
  case (Chunk i n)
  then show ?thesis
    using reports_only_through_layers[of wrapper_report_v3 "chunk_layer V3 n",
        OF reports_only_chunk_layer_v3]
    by (simp add: load_step_def Let_def split_beta)
next
  case (Done i)
  then show ?thesis
    using reports_only_through_layers[of wrapper_report_v3 "done_layer V3",
        OF reports_only_done_layer_v3]
    by (simp add: load_step_def Let_def split_beta)
next
  case (Cancel i)
  then show ?thesis
    using reports_only_through_layers[of wrapper_report_v3 "cancel_layer V3",
        OF reports_only_cancel_layer_v3]
    by (simp add: load_step_def Let_def split_beta)
next
  case (NativeProgress st pr fl)
  then show ?thesis by (simp add: load_step_def progress_callback_def)
qed

lemma reports_only_run_load_v3: "reports_only wrapper_report_v3 w (run_load V3 rep evs w)"
  unfolding run_load_def by (rule reports_only_foldl) (rule reports_only_load_step_v3)

text \<open>What a chunk and the end of a body post in version 2.\<close>

lemma trace_report_total:
  "trace (report_total r w) =
     trace w @ (case calculateTotalProgress (downloadTracker (report_total r w)) of
                  None \<Rightarrow> []
                | Some q \<Rightarrow> [Posted (Progress r (Loading DescargandoModelo (Some q)))])"
  by (simp add: report_total_def postProgress_def split: option.splits)

lemma trace_chunk_layer:
  "trace (fst (chunk_layer V2 n l w)) =
     trace w @ (case calculateTotalProgress (downloadTracker (fst (chunk_layer V2 n l w))) of
                  None \<Rightarrow> []
                | Some q \<Rightarrow> [Posted (Progress (l_report l) (Loading DescargandoModelo (Some q)))])"
proof -
  obtain w1 where w1: "fst (chunk_layer V2 n l w) = report_total (l_report l) w1" "trace w1 = trace w"
    by (cases "map_of (downloadTracker w) (l_key l)") (auto simp: chunk_layer_def Let_def)
  show ?thesis unfolding w1(1) using trace_report_total[of "l_report l" w1] w1(2) by simp
qed

lemma trace_done_layer:
  "trace (fst (done_layer V2 l w)) =
     trace w @ (case calculateTotalProgress (downloadTracker (fst (done_layer V2 l w))) of
                  None \<Rightarrow> []
                | Some q \<Rightarrow> [Posted (Progress (l_report l) (Loading DescargandoModelo (Some q)))])"
proof -
  obtain w1 where w1: "fst (done_layer V2 l w) = report_total (l_report l) w1" "trace w1 = trace w"
    by (cases "map_of (downloadTracker w) (l_key l)") (auto simp: done_layer_def Let_def)
  show ?thesis unfolding w1(1) using trace_report_total[of "l_report l" w1] w1(2) by simp
qed

lemma calculateTotalProgress_formula:
  "calculateTotalProgress t =
     (if sum_list (map (total \<circ> snd) t) = 0 then None
      else Some (min 99 (round (js_mul
                   (js_div (of_nat (sum_list (map (loaded \<circ> snd) t)))
                           (of_nat (sum_list (map (total \<circ> snd) t)))) 100))))"
  by (cases t) (simp_all add: calculateTotalProgress_def Let_def)

text \<open>With 23 of 40 bytes loaded the code reports 57; the formula in exact arithmetic
  gives 58.\<close>

lemma calculateTotalProgress_23_of_40:
  "calculateTotalProgress [(js ''model.onnx'', \<lparr>loaded = 23, total = 40\<rparr>)] = Some 57"
  by (simp add: calculateTotalProgress_def percent_23_of_40)

text \<open>So does the wrapper of version 3 for its one file.\<close>

lemma chunk_layer_v3_23_of_40:
  "trace (fst (chunk_layer V3 23 \<lparr>l_report = ''r1'', l_key = js ''model.onnx'', l_total = 40,
                                  l_loaded = 0\<rparr> initial_worker)) =
     [Posted (Progress ''r1'' (Loading DescargandoModelo (Some 57)))]"
  by (simp add: chunk_layer_def postProgress_def initial_worker_def percent_23_of_40)

text \<open>The whole load in version 2 and in version 3.\<close>

lemma load_pipeline_v2_trace:
  assumes "outcome (lib model (or_else (Some dev) ''wasm'')) = Inr p"
  shows "\<exists>segs. trace (snd (load_pipeline V2 lib model dev (Some requestId) w)) =
             trace w @ [Posted (Progress requestId (Loading IniciandoDescarga (Some 0))),
                        PipelineCall model (or_else (Some dev) ''wasm'')]
               @ concat segs @ [Posted (Progress requestId (Loading ModeloListo (Some 100)))]
           \<and> list_all2 (event_reports requestId)
                (events (lib model (or_else (Some dev) ''wasm''))) segs"
proof -
  let ?rd = "or_else (Some dev) ''wasm''"
  let ?w3 = "postProgress requestId (Loading IniciandoDescarga (Some 0))
               (w\<lparr>downloadTracker := [], globalFetch := Interceptor (Some requestId) (globalFetch w)\<rparr>)"
  let ?w4 = "?w3\<lparr>trace := trace ?w3 @ [PipelineCall model ?rd]\<rparr>"
  let ?w5 = "run_load V2 (Some requestId) (events (lib model ?rd)) ?w4"
  from run_load_v2_posts[of requestId ?w4 "[]" "events (lib model ?rd)"]
  obtain segs where segs: "trace ?w5 = trace ?w4 @ concat segs"
    "list_all2 (event_reports requestId) (events (lib model ?rd)) segs"
    by (auto simp: run_load_def)
  have t4: "trace ?w4 = trace w @ [Posted (Progress requestId (Loading IniciandoDescarga (Some 0))),
                        PipelineCall model ?rd]"
    by (simp add: postProgress_def)
  have "trace (snd (load_pipeline V2 lib model dev (Some requestId) w)) =
          trace ?w5 @ [Posted (Progress requestId (Loading ModeloListo (Some 100)))]"
    using assms by (simp add: load_pipeline_def Let_def report_def postProgress_def)
  with segs t4 have "trace (snd (load_pipeline V2 lib model dev (Some requestId) w)) =
             trace w @ [Posted (Progress requestId (Loading IniciandoDescarga (Some 0))),
                        PipelineCall model ?rd]
               @ concat segs @ [Posted (Progress requestId (Loading ModeloListo (Some 100)))]
           \<and> list_all2 (event_reports requestId) (events (lib model ?rd)) segs"
    by simp
  then show ?thesis ..
qed

lemma load_pipeline_v3_trace:
  assumes "outcome (lib model (or_else (Some dev) ''wasm'')) = Inr p"
  shows "\<exists>mid. trace (snd (load_pipeline V3 lib model dev (Some requestId) w)) =
             trace w @ [PipelineCall model (or_else (Some dev) ''wasm'')]
               @ mid @ [Posted (Progress requestId (Loading ModeloListo (Some 100)))]
           \<and> list_all wrapper_report_v3 mid"
proof -
  let ?rd = "or_else (Some dev) ''wasm''"
  let ?w2 = "w\<lparr>envFetch := Some (Interceptor (Some requestId)
                 (case envFetch w of None \<Rightarrow> globalFetch w | Some f \<Rightarrow> f))\<rparr>"
  let ?w4 = "?w2\<lparr>trace := trace ?w2 @ [PipelineCall model ?rd]\<rparr>"
  let ?w5 = "run_load V3 (Some requestId) (events (lib model ?rd)) ?w4"
  from reports_only_run_load_v3[of ?w4 "Some requestId" "events (lib model ?rd)"]
  obtain mid where mid: "trace ?w5 = trace ?w4 @ mid" "list_all wrapper_report_v3 mid"
    by (auto simp: reports_only_def)
  have "trace (snd (load_pipeline V3 lib model dev (Some requestId) w)) =
          trace ?w5 @ [Posted (Progress requestId (Loading ModeloListo (Some 100)))]"
    using assms by (simp add: load_pipeline_def Let_def report_def postProgress_def)
  with mid have "trace (snd (load_pipeline V3 lib model dev (Some requestId) w)) =
             trace w @ [PipelineCall model ?rd]
               @ mid @ [Posted (Progress requestId (Loading ModeloListo (Some 100)))]
           \<and> list_all wrapper_report_v3 mid"
    by simp
  then show ?thesis ..
qed

text \<open>
  C8, as the code has it. The percentages are computed in double arithmetic, as
  \<open>Math.round((loaded / total) * 100)\<close>, which is not always the rounded exact quotient (23
  of 40 gives 57).

  In the worker of version 2, \<open>calculateTotalProgress\<close> is
  \<open>Math.min(99, Math.round((sum(loaded) / sum(total)) * 100))\<close> over the tracked files, and
  null when no byte is expected; every chunk and every end of a body that passes through
  the fetch wrapper reports exactly that value for the tracker as it then is (or nothing
  when it is null). A load that succeeds posts 0, then for every event of the library
  either reports of the wrapper, each null or at most 99, or what the native progress
  callback posts for it (the library's own rounded progress, not capped, or 100), and last
  100. When the native callback posts nothing during the load, that last 100 is the only
  one.

  In the worker of version 3 (\<open>public/embeddings-worker.js\<close>) every chunk reports
  \<open>Math.min(99, Math.round((loaded / total) * 100))\<close> of its own file alone, and the end of
  every body reports 100; a load that succeeds posts only such reports and then one more
  100.
\<close>

theorem download_progress_capped:
  assumes "outcome (lib model (or_else (Some dev) ''wasm'')) = Inr p"
  shows "(\<exists>segs. trace (snd (load_pipeline V2 lib model dev (Some requestId) w)) =
             trace w @ [Posted (Progress requestId (Loading IniciandoDescarga (Some 0))),
                        PipelineCall model (or_else (Some dev) ''wasm'')]
               @ concat segs @ [Posted (Progress requestId (Loading ModeloListo (Some 100)))]
           \<and> list_all2 (event_reports requestId)
                (events (lib model (or_else (Some dev) ''wasm''))) segs
           \<and> (list_all silent (events (lib model (or_else (Some dev) ''wasm'')))
                \<longrightarrow> list_all capped_report (concat segs)))
    \<and> (\<exists>mid. trace (snd (load_pipeline V3 lib model dev (Some requestId) w)) =
             trace w @ [PipelineCall model (or_else (Some dev) ''wasm'')]
               @ mid @ [Posted (Progress requestId (Loading ModeloListo (Some 100)))]
           \<and> list_all wrapper_report_v3 mid)
    \<and> calculateTotalProgress t =
         (if sum_list (map (total \<circ> snd) t) = 0 then None
          else Some (min 99 (round (js_mul
                       (js_div (of_nat (sum_list (map (loaded \<circ> snd) t)))
                               (of_nat (sum_list (map (total \<circ> snd) t)))) 100))))
    \<and> trace (fst (chunk_layer V2 n l w')) =
         trace w' @ (case calculateTotalProgress (downloadTracker (fst (chunk_layer V2 n l w'))) of
                       None \<Rightarrow> []
                     | Some q \<Rightarrow> [Posted (Progress (l_report l) (Loading DescargandoModelo (Some q)))])
    \<and> trace (fst (done_layer V2 l w')) =
         trace w' @ (case calculateTotalProgress (downloadTracker (fst (done_layer V2 l w'))) of
                       None \<Rightarrow> []
                     | Some q \<Rightarrow> [Posted (Progress (l_report l) (Loading DescargandoModelo (Some q)))])
    \<and> chunk_layer V3 n l w' =
         (postProgress (l_report l)
            (Loading DescargandoModelo
               (Some (min 99 (round (js_mul
                        (js_div (of_nat (l_loaded l + n)) (of_nat (l_total l))) 100))))) w',
          l\<lparr>l_loaded := l_loaded l + n\<rparr>)
    \<and> done_layer V3 l w' =
         (postProgress (l_report l) (Loading ModeloDescargado (Some 100)) w', l)"
proof -
  from load_pipeline_v2_trace[of lib model dev p requestId w] assms
  obtain segs where segs:
    "trace (snd (load_pipeline V2 lib model dev (Some requestId) w)) =
       trace w @ [Posted (Progress requestId (Loading IniciandoDescarga (Some 0))),
                  PipelineCall model (or_else (Some dev) ''wasm'')]
         @ concat segs @ [Posted (Progress requestId (Loading ModeloListo (Some 100)))]"
    "list_all2 (event_reports requestId) (events (lib model (or_else (Some dev) ''wasm''))) segs"
    by blast
  have "list_all silent (events (lib model (or_else (Some dev) ''wasm'')))
          \<longrightarrow> list_all capped_report (concat segs)"
    using silent_segments[OF segs(2)] by simp
  with segs have v2: "\<exists>segs. trace (snd (load_pipeline V2 lib model dev (Some requestId) w)) =
             trace w @ [Posted (Progress requestId (Loading IniciandoDescarga (Some 0))),
                        PipelineCall model (or_else (Some dev) ''wasm'')]
               @ concat segs @ [Posted (Progress requestId (Loading ModeloListo (Some 100)))]
           \<and> list_all2 (event_reports requestId)
                (events (lib model (or_else (Some dev) ''wasm''))) segs
           \<and> (list_all silent (events (lib model (or_else (Some dev) ''wasm'')))
                \<longrightarrow> list_all capped_report (concat segs))"
    by blast
  have c3: "chunk_layer V3 n l w' =
         (postProgress (l_report l)
            (Loading DescargandoModelo
               (Some (min 99 (round (js_mul
                        (js_div (of_nat (l_loaded l + n)) (of_nat (l_total l))) 100))))) w',
          l\<lparr>l_loaded := l_loaded l + n\<rparr>)"
    by (simp add: chunk_layer_def Let_def)
  have d3: "done_layer V3 l w' =
         (postProgress (l_report l) (Loading ModeloDescargado (Some 100)) w', l)"
    by (simp add: done_layer_def)
  show ?thesis
    using v2 load_pipeline_v3_trace[of lib model dev p requestId w, OF assms]
      calculateTotalProgress_formula[of t] trace_chunk_layer[of n l w'] trace_done_layer[of l w']
      c3 d3
    by (intro conjI)
qed

lemma two_file_urls:
  "isModelAsset v (js ''https://huggingface.co/m/resolve/main/model.onnx'')"
  "isModelAsset v (js ''https://huggingface.co/m/resolve/main/config.json'')"
  "fileKey_of (js ''https://huggingface.co/m/resolve/main/model.onnx'') = js ''model.onnx''"
  "fileKey_of (js ''https://huggingface.co/m/resolve/main/config.json'') = js ''config.json''"
  "js ''model.onnx'' \<noteq> js ''config.json''"
  "js ''config.json'' \<noteq> js ''model.onnx''"
  by (simp_all add: isModelAsset_def fileKey_of_def ci_def js_def cu_def lower_def)

text \<open>The load of the two files in version 2: the aggregate of both files, 13, 23, 23,
  40 and 40 of 40 bytes, capped.\<close>

lemma two_file_trace_v2:
  "trace (snd (load_pipeline V2 two_file_library ''m'' ''wasm'' (Some ''r1'') initial_worker)) =
     [Posted (Progress ''r1'' (Loading IniciandoDescarga (Some 0))),
      PipelineCall ''m'' ''wasm'',
      Posted (Progress ''r1'' (Loading DescargandoModelo (Some 33))),
      Posted (Progress ''r1'' (Loading DescargandoModelo (Some 57))),
      Posted (Progress ''r1'' (Loading DescargandoModelo (Some 57))),
      Posted (Progress ''r1'' (Loading DescargandoModelo (Some 99))),
      Posted (Progress ''r1'' (Loading DescargandoModelo (Some 99))),
      Posted (Progress ''r1'' (Loading ModeloListo (Some 100)))]"
  by (simp add: worker_defs calculateTotalProgress_def two_file_library_def two_file_urls)

text \<open>The same load in version 3: each file by itself, 13 of 30, 10 of 10 and 30 of 30
  bytes, capped, and 100 at the end of each body.\<close>

lemma two_file_trace_v3:
  "trace (snd (load_pipeline V3 two_file_library ''m'' ''wasm'' (Some ''r1'') initial_worker)) =
     [PipelineCall ''m'' ''wasm'',
      Posted (Progress ''r1'' (Loading DescargandoModelo (Some 43))),
      Posted (Progress ''r1'' (Loading DescargandoModelo (Some 99))),
      Posted (Progress ''r1'' (Loading ModeloDescargado (Some 100))),
      Posted (Progress ''r1'' (Loading DescargandoModelo (Some 99))),
      Posted (Progress ''r1'' (Loading ModeloDescargado (Some 100))),
      Posted (Progress ''r1'' (Loading ModeloListo (Some 100)))]"
  by (simp add: worker_defs two_file_library_def two_file_urls)

theorem download_progress_capped_witness:
  "trace (snd (load_pipeline V2 two_file_library ''m'' ''wasm'' (Some ''r1'') initial_worker)) =
     [Posted (Progress ''r1'' (Loading IniciandoDescarga (Some 0))),
      PipelineCall ''m'' ''wasm'',
      Posted (Progress ''r1'' (Loading DescargandoModelo (Some 33))),
      Posted (Progress ''r1'' (Loading DescargandoModelo (Some 57))),
      Posted (Progress ''r1'' (Loading DescargandoModelo (Some 57))),
      Posted (Progress ''r1'' (Loading DescargandoModelo (Some 99))),
      Posted (Progress ''r1'' (Loading DescargandoModelo (Some 99))),
      Posted (Progress ''r1'' (Loading ModeloListo (Some 100)))]
   \<and> (\<exists>mid. trace (snd (load_pipeline V2 two_file_library ''m'' ''wasm'' (Some ''r1'') initial_worker)) =
              [Posted (Progress ''r1'' (Loading IniciandoDescarga (Some 0))),
               PipelineCall ''m'' ''wasm'']
                @ mid @ [Posted (Progress ''r1'' (Loading ModeloListo (Some 100)))]
            \<and> list_all capped_report mid)
   \<and> (\<exists>mid. trace (snd (load_pipeline V3 two_file_library ''m'' ''wasm'' (Some ''r1'') initial_worker)) =
              [PipelineCall ''m'' ''wasm'']
                @ mid @ [Posted (Progress ''r1'' (Loading ModeloListo (Some 100)))]
            \<and> list_all wrapper_report_v3 mid)"
proof -
  have 1: "outcome (two_file_library ''m'' (or_else (Some ''wasm'') ''wasm'')) = Inr stub_pipe"
    by (simp add: two_file_library_def)
  have 2: "list_all silent (events (two_file_library ''m'' (or_else (Some ''wasm'') ''wasm'')))"
    by (simp add: two_file_library_def)
  note t = download_progress_capped
      [of two_file_library "''m''" "''wasm''" stub_pipe "''r1''" initial_worker, OF 1]
  from t 2 obtain segs where
    "trace (snd (load_pipeline V2 two_file_library ''m'' ''wasm'' (Some ''r1'') initial_worker)) =
       trace initial_worker
         @ [Posted (Progress ''r1'' (Loading IniciandoDescarga (Some 0))),
            PipelineCall ''m'' (or_else (Some ''wasm'') ''wasm'')]
         @ concat segs @ [Posted (Progress ''r1'' (Loading ModeloListo (Some 100)))]"
    "list_all capped_report (concat segs)"
    by blast
  then have a: "\<exists>mid. trace (snd (load_pipeline V2 two_file_library ''m'' ''wasm'' (Some ''r1'') initial_worker)) =
              [Posted (Progress ''r1'' (Loading IniciandoDescarga (Some 0))),
               PipelineCall ''m'' ''wasm'']
                @ mid @ [Posted (Progress ''r1'' (Loading ModeloListo (Some 100)))]
            \<and> list_all capped_report mid"
    by (intro exI[of _ "concat segs"]) (simp add: or_else_def initial_worker_def)
  from t have b: "\<exists>mid. trace (snd (load_pipeline V3 two_file_library ''m'' ''wasm'' (Some ''r1'') initial_worker)) =
              [PipelineCall ''m'' ''wasm'']
                @ mid @ [Posted (Progress ''r1'' (Loading ModeloListo (Some 100)))]
            \<and> list_all wrapper_report_v3 mid"
    by (simp add: or_else_def initial_worker_def)
  from two_file_trace_v2 a b show ?thesis by (intro conjI)
qed

text \<open>With the native callback at work the percentages are not those of the formula, and
  100 is reported before the load is complete.\<close>

theorem download_progress_native_counterexample:
  "trace (snd (ensurePipeline V2 native_library ''m'' ''wasm'' (Some ''r1'') initial_worker)) =
     [Posted (Progress ''r1'' (Loading IniciandoDescarga (Some 0))),
      PipelineCall ''m'' ''wasm'',
      Posted (Progress ''r1'' (Loading (Descargando ''model.onnx'') (Some 100))),
      Posted (Progress ''r1'' (Loading ModeloListo (Some 100))),
      Posted (Progress ''r1'' (Loading ModeloListo (Some 100)))]"
  by (simp add: worker_defs native_library_def)

section \<open>The RPC client of the worker\<close>

subsection \<open>Facts about a waiting call\<close>


lemma settle_length [simp]: "length (promises (settle j s c)) = length (promises c)"
  by (simp add: settle_def)

lemma settle_pending [simp]: "pending (settle j s c) = pending c"
  by (simp add: settle_def)

lemma settle_timers [simp]: "timers (settle j s c) = timers c"
  by (simp add: settle_def)

lemma settle_now [simp]: "now (settle j s c) = now c"
  by (simp add: settle_def)





text \<open>Firing timers of other calls leaves the call waiting.\<close>

lemma fire_fields [simp]:
  "timers (fire t c) = timers c" "now (fire t c) = now c"
  "length (promises (fire t c)) = length (promises c)"
  by (simp_all add: fire_def)




lemma foldl_fire_fields [simp]:
  "timers (foldl (\<lambda>c t. fire t c) c ts) = timers c"
  "now (foldl (\<lambda>c t. fire t c) c ts) = now c"
  "length (promises (foldl (\<lambda>c t. fire t c) c ts)) = length (promises c)"
  by (induction ts arbitrary: c) simp_all











subsection \<open>C5: a call that gets no response\<close>



text \<open>The state of that client after the sixty seconds.\<close>

lemma timed_out_client_state:
  "advance 1 (run_client [Advance 30000, Deliver (ProgressIn ''r1'' ''half''), Advance 29999]
          (call ''r1'' ''embed'' ''texts'' None True new_client)) =
     \<lparr> pending = [], timers = [], next_timer = 2, now = 60000,
       promises = [Some (Rejected (TimeoutError ''embed''))],
       progress_calls = [(''r1'', ''half'')], sent = [(''embed'', ''r1'', ''texts'')],
       listening = True, worker_terminated = False \<rparr>"
  by (simp add: run_client_def client_step_def advance_def call_def onMessage_def fire_def
      settle_def new_client_def timeout_of_def Let_def)

end
